theory Spec2Isabelle
  imports Main "HOL-Library.Word"
begin

section \<open>JavaScript strings\<close>

text \<open>
  A JavaScript string is a sequence of UTF-16 code units. String literals of the source
  are ASCII; \<open>js\<close> turns an ASCII literal into its code units.
\<close>

type_synonym jsstring = "16 word list"

definition js :: "string \<Rightarrow> jsstring" where
  "js s = map (\<lambda>c. of_nat (of_char c)) s"

section \<open>The request builder (\<open>src/unnamed/part_000\<close>)\<close>

subsection \<open>Types of the builder\<close>

text \<open>
  \<^verbatim>\<open>type HTTPMethodsWithoutBody = "GET" | "HEAD" | "CONNECT" | "DELETE" | "OPTIONS";\<close>
  \<^verbatim>\<open>type HTTPMethodsWithBody = "POST" | "PUT" | "PATCH";\<close>
  \<^verbatim>\<open>type HTTPMethods = HTTPMethodsWithBody | HTTPMethodsWithoutBody;\<close>
\<close>

datatype HTTPMethods = GET | HEAD | CONNECT | DELETE | OPTIONS | POST | PUT | PATCH

text \<open>The string each member of the union is at run time (used in template literals).\<close>

fun methodString :: "HTTPMethods \<Rightarrow> jsstring" where
  "methodString GET = js ''GET''"
| "methodString HEAD = js ''HEAD''"
| "methodString CONNECT = js ''CONNECT''"
| "methodString DELETE = js ''DELETE''"
| "methodString OPTIONS = js ''OPTIONS''"
| "methodString POST = js ''POST''"
| "methodString PUT = js ''PUT''"
| "methodString PATCH = js ''PATCH''"

text \<open>\<^verbatim>\<open>type TypeNames = "number" | "string" | "boolean" | "string[]";\<close>\<close>

datatype TypeNames = T_number | T_string | T_boolean | T_string_array

text \<open>
  \<^verbatim>\<open>enum ClientErrorCode { Error = -1, InvalidParameter = -2, NetworkFailure = -3, ParseError = -4 }\<close>
\<close>

datatype ClientErrorCode = Error | InvalidParameter | NetworkFailure | ParseError

fun ClientErrorCode_value :: "ClientErrorCode \<Rightarrow> int" where
  "ClientErrorCode_value Error = -1"
| "ClientErrorCode_value InvalidParameter = -2"
| "ClientErrorCode_value NetworkFailure = -3"
| "ClientErrorCode_value ParseError = -4"

text \<open>\<^verbatim>\<open>class APIError extends Error { code: number; constructor(code, message) }\<close>\<close>

record APIError =
  code :: int
  message :: jsstring

definition new_APIError :: "int \<Rightarrow> jsstring \<Rightarrow> APIError" where
  "new_APIError c m = \<lparr>code = c, message = m\<rparr>"

text \<open>
  \<^verbatim>\<open>type Validator<T> = (key: string, value: T) => T;\<close>
  A validator returns the value or throws; the parameter values are of type \<open>'v\<close>.
\<close>

type_synonym 'v Validator = "jsstring \<Rightarrow> 'v \<Rightarrow> APIError + 'v"

text \<open>
  \<^verbatim>\<open>type ParamInfo<T> = { type: T, validator: Validator<TypeOfName<T>>, optional?: true }\<close>
  The property \<open>optional\<close> is either \<open>true\<close> or absent; absent is \<open>False\<close> here.
\<close>

record 'v ParamInfo =
  type :: TypeNames
  validator :: "'v Validator"
  optional :: bool

text \<open>
  \<^verbatim>\<open>type SimpleParamsDeclare = { [key: string]: ParamInfo<TypeNames> | TypeNames }\<close>
  A declaration that \<open>simpleParam\<close> receives is the list of the properties that
  \<open>for (const key in info)\<close> visits (the enumerable string-keyed properties of the
  object, its own and the inherited ones, each key once), in the order of the visit, each
  with the value that \<open>info[key]\<close> reads.
\<close>

datatype 'v SimpleParam = Name TypeNames | Info "'v ParamInfo"

type_synonym 'v SimpleParamsDeclare = "(jsstring \<times> 'v SimpleParam) list"

text \<open>
  \<^verbatim>\<open>type ParamsDeclare = { [key: string]: ParamInfo<TypeNames> }\<close>
  The objects that the builder holds are made by \<open>simpleParam\<close> from the literal \<open>{}\<close>
  by assignments \<open>params[key] = ...\<close>. Such an object is its own properties, in the
  order they were created, and its prototype: \<open>None\<close> while it is \<open>Object.prototype\<close>,
  the assigned object once an assignment to the key \<open>__proto__\<close> has replaced it.
\<close>

record 'v ParamsDeclare =
  own :: "(jsstring \<times> 'v ParamInfo) list"
  proto :: "'v ParamInfo option"

text \<open>The object literal \<open>{}\<close>.\<close>

definition empty_object :: "'v ParamsDeclare" where
  "empty_object = \<lparr>own = [], proto = None\<rparr>"

text \<open>
  An own property is written in place when the key is present and created at the end
  otherwise.
\<close>

fun put_property :: "jsstring \<Rightarrow> 'a \<Rightarrow> (jsstring \<times> 'a) list \<Rightarrow> (jsstring \<times> 'a) list" where
  "put_property key v [] = [(key, v)]"
| "put_property key v ((k, x) # ps) =
     (if k = key then (k, v) # ps else (k, x) # put_property key v ps)"

text \<open>
  The assignment \<open>params[key] = v\<close> of an object \<open>v\<close>. For the key \<open>__proto__\<close> it
  runs the setter that \<open>Object.prototype\<close> has for this key, which makes \<open>v\<close> the
  prototype of \<open>params\<close> and creates no property; for every other key it writes the own
  property. (The objects assigned are plain records: no setter and no read-only property
  is inherited from them.)
\<close>

definition assign :: "jsstring \<Rightarrow> 'v ParamInfo \<Rightarrow> 'v ParamsDeclare \<Rightarrow> 'v ParamsDeclare" where
  "assign key v params =
     (if key = js ''__proto__'' then params\<lparr>proto := Some v\<rparr>
      else params\<lparr>own := put_property key v (own params)\<rparr>)"

subsection \<open>\<open>validateByPass\<close> and \<open>simpleParam\<close>\<close>

definition validateByPass :: "'v Validator" where
  "validateByPass _ v = Inr v"

text \<open>
  The body of the \<open>for (const key in info)\<close> loop of \<open>simpleParam\<close>: the
  \<open>switch\<close> on the declared value, one case per type name, and the default case that
  stores the value as it is.
\<close>

fun simpleParam_case :: "'v SimpleParam \<Rightarrow> 'v ParamInfo" where
  "simpleParam_case (Name T_number) =
     \<lparr>type = T_number, validator = validateByPass, optional = False\<rparr>"
| "simpleParam_case (Name T_string) =
     \<lparr>type = T_string, validator = validateByPass, optional = False\<rparr>"
| "simpleParam_case (Name T_boolean) =
     \<lparr>type = T_boolean, validator = validateByPass, optional = False\<rparr>"
| "simpleParam_case (Name T_string_array) =
     \<lparr>type = T_string_array, validator = validateByPass, optional = False\<rparr>"
| "simpleParam_case (Info value) = value"

text \<open>
  \<^verbatim>\<open>
  const params = {} as FullParamsDeclare<T>;
  for (const key in info) { const value = info[key]; switch (info[key]) { ... params[key] = ...; } }
  return params;
  \<close>
  The loop, with \<open>params\<close> as it stands.
\<close>

fun simpleParam_loop :: "'v SimpleParamsDeclare \<Rightarrow> 'v ParamsDeclare \<Rightarrow> 'v ParamsDeclare" where
  "simpleParam_loop [] params = params"
| "simpleParam_loop ((key, v) # info) params =
     simpleParam_loop info (assign key (simpleParam_case v) params)"

definition simpleParam :: "'v SimpleParamsDeclare \<Rightarrow> 'v ParamsDeclare" where
  "simpleParam info = simpleParam_loop info empty_object"

subsection \<open>\<open>validateNonEmpty\<close> and its regular expression\<close>

text \<open>
  The character class \<open>\s\<close> of an ECMAScript regular expression: the code units of
  WhiteSpace (TAB, VT, FF, ZWNBSP and the Unicode space separators) and of
  LineTerminator (LF, CR, LS, PS).
\<close>

definition isWhiteSpace :: "16 word \<Rightarrow> bool" where
  "isWhiteSpace c \<longleftrightarrow>
     c = 0x0009 \<or> c = 0x000B \<or> c = 0x000C \<or> c = 0xFEFF \<or>
     c = 0x0020 \<or> c = 0x00A0 \<or> c = 0x1680 \<or> (0x2000 \<le> c \<and> c \<le> 0x200A) \<or>
     c = 0x202F \<or> c = 0x205F \<or> c = 0x3000"

definition isLineTerminator :: "16 word \<Rightarrow> bool" where
  "isLineTerminator c \<longleftrightarrow> c = 0x000A \<or> c = 0x000D \<or> c = 0x2028 \<or> c = 0x2029"

definition class_s :: "16 word \<Rightarrow> bool" where
  "class_s c \<longleftrightarrow> isWhiteSpace c \<or> isLineTerminator c"

text \<open>
  The terms the pattern \<open>/^\s*$/\<close> is built from: the assertions \<open>^\<close> and \<open>$\<close>
  (no \<open>m\<close> flag: start and end of the input) and a character class under a greedy star.
\<close>

datatype rx_term = Bol | Eol | Star "16 word \<Rightarrow> bool"

text \<open>
  The backtracking matcher: \<open>rx_match ts at_start s\<close> matches the terms \<open>ts\<close> against
  the rest \<open>s\<close> of the input, \<open>at_start\<close> telling whether the position is index 0.
  The star first tries one more iteration and falls back to the rest of the pattern.
\<close>

fun rx_match :: "rx_term list \<Rightarrow> bool \<Rightarrow> jsstring \<Rightarrow> bool" where
  "rx_match [] at_start s = True"
| "rx_match (Bol # ts) at_start s = (at_start \<and> rx_match ts at_start s)"
| "rx_match (Eol # ts) at_start s = (s = [] \<and> rx_match ts at_start s)"
| "rx_match (Star p # ts) at_start [] = rx_match ts at_start []"
| "rx_match (Star p # ts) at_start (c # cs) =
     ((p c \<and> rx_match (Star p # ts) False cs) \<or> rx_match ts at_start (c # cs))"

text \<open>\<open>RegExp.prototype.test\<close>: the match is tried at every start index, from 0 on.\<close>

fun rx_search :: "rx_term list \<Rightarrow> bool \<Rightarrow> jsstring \<Rightarrow> bool" where
  "rx_search ts at_start [] = rx_match ts at_start []"
| "rx_search ts at_start (c # cs) = (rx_match ts at_start (c # cs) \<or> rx_search ts False cs)"

definition RegExp_test :: "rx_term list \<Rightarrow> jsstring \<Rightarrow> bool" where
  "RegExp_test ts s = rx_search ts True s"

text \<open>
  \<^verbatim>\<open>
  function validateNonEmpty(key: string, text: string): string
  {
      if (/^\s*$/.test(text))
          throw new APIError(ClientErrorCode.InvalidParameter, `'${key}' cannot be empty`);
      return text;
  }
  \<close>
\<close>

definition validateNonEmpty :: "jsstring Validator" where
  "validateNonEmpty key text =
     (if RegExp_test [Bol, Star class_s, Eol] text
      then Inl (new_APIError (ClientErrorCode_value InvalidParameter)
                  (js [CHR 0x27] @ key @ js [CHR 0x27] @ js '' cannot be empty''))
      else Inr text)"

subsection \<open>\<open>ApiBuilder\<close>\<close>

datatype RedirectOption = follow | error | manual

text \<open>
  The fields of the class. \<open>dataInfo\<close> is \<open>undefined\<close> (\<open>None\<close>) for a method without
  body; \<open>redirectOption\<close> is absent until \<open>redirect\<close> sets it.
\<close>

record 'v ApiBuilder = "method" :: HTTPMethods
  url :: jsstring
  pathInfo :: "'v ParamsDeclare"
  queryInfo :: "'v ParamsDeclare"
  dataInfo :: "'v ParamsDeclare option"
  redirectOption :: "RedirectOption option"

text \<open>The constructor assigns the five arguments and leaves \<open>redirectOption\<close> unset.\<close>

definition new_ApiBuilder ::
  "HTTPMethods \<Rightarrow> jsstring \<Rightarrow> 'v ParamsDeclare \<Rightarrow> 'v ParamsDeclare \<Rightarrow> 'v ParamsDeclare option
     \<Rightarrow> 'v ApiBuilder" where
  "new_ApiBuilder m u p q d =
     \<lparr>method = m, url = u, pathInfo = p, queryInfo = q, dataInfo = d, redirectOption = None\<rparr>"

text \<open>
  A method call on a builder yields the receiver as the call leaves it and either the
  thrown \<open>APIError\<close> or the returned value.
\<close>

type_synonym ('v, 'a) method_call = "'v ApiBuilder \<times> (APIError + 'a)"

definition path :: "'v ApiBuilder \<Rightarrow> 'v SimpleParamsDeclare \<Rightarrow> ('v, 'v ApiBuilder) method_call" where
  "path this p =
     (this, Inr (new_ApiBuilder (method this) (url this) (simpleParam p) (queryInfo this)
                   (dataInfo this)))"

definition query :: "'v ApiBuilder \<Rightarrow> 'v SimpleParamsDeclare \<Rightarrow> ('v, 'v ApiBuilder) method_call" where
  "query this q =
     (this, Inr (new_ApiBuilder (method this) (url this) (pathInfo this) (simpleParam q)
                   (dataInfo this)))"

text \<open>
  \<^verbatim>\<open>
  body<NewData extends SimpleParamsDeclare>(data: NewData)
  {
      if (this.method === "POST" || this.method === "PATCH" || this.method === "PUT")
          return new ApiBuilder(this.method, this.url, this.pathInfo, this.queryInfo, simpleParam(data));
      else
          throw new APIError(ClientErrorCode.Error, `HTTP Method ${this.method} should not have body.`);
  }
  \<close>
\<close>

definition body :: "'v ApiBuilder \<Rightarrow> 'v SimpleParamsDeclare \<Rightarrow> ('v, 'v ApiBuilder) method_call" where
  "body this data =
     (if method this = POST \<or> method this = PATCH \<or> method this = PUT
      then (this, Inr (new_ApiBuilder (method this) (url this) (pathInfo this) (queryInfo this)
                         (Some (simpleParam data))))
      else (this, Inl (new_APIError (ClientErrorCode_value Error)
                         (js ''HTTP Method '' @ methodString (method this)
                            @ js '' should not have body.''))))"

text \<open>\<open>redirect\<close> is the one method that assigns to a field of the receiver.\<close>

definition redirect :: "'v ApiBuilder \<Rightarrow> RedirectOption \<Rightarrow> ('v, 'v ApiBuilder) method_call" where
  "redirect this r =
     (let this' = this\<lparr>redirectOption := Some r\<rparr> in (this', Inr this'))"

text \<open>The exported \<open>api\<close>: an empty body schema for POST, PUT and PATCH, none otherwise.\<close>

fun api :: "HTTPMethods \<Rightarrow> jsstring \<Rightarrow> 'v ApiBuilder" where
  "api POST u = new_ApiBuilder POST u empty_object empty_object (Some empty_object)"
| "api PUT u = new_ApiBuilder PUT u empty_object empty_object (Some empty_object)"
| "api PATCH u = new_ApiBuilder PATCH u empty_object empty_object (Some empty_object)"
| "api m u = new_ApiBuilder m u empty_object empty_object None"

text \<open>
  What a declaration declares for a parameter: its type, its validator and whether it is
  optional. A declaration that only names the type declares the validator that passes
  every value and a parameter that is not optional.
\<close>

fun declared_info :: "'v SimpleParam \<Rightarrow> 'v ParamInfo" where
  "declared_info (Name t) = \<lparr>type = t, validator = (\<lambda>key value. Inr value), optional = False\<rparr>"
| "declared_info (Info i) = i"

section \<open>The controller (\<open>src/src/controller.ts\<close>)\<close>

subsection \<open>\<open>JSON.stringify\<close> on objects of strings\<close>

text \<open>
  The one value the controller serialises is an object literal with a string property.
  \<open>QuoteJSONString\<close> of ECMAScript: the two-character escapes, \<open>\uXXXX\<close> for the other
  control characters and for a surrogate that has no partner, every other code unit as
  it is.
\<close>

datatype json = JString jsstring | JObject "(jsstring \<times> json) list"

definition hexDigit :: "nat \<Rightarrow> 16 word" where
  "hexDigit n = (if n < 10 then of_nat (48 + n) else of_nat (87 + n))"

definition UnicodeEscape :: "16 word \<Rightarrow> jsstring" where
  "UnicodeEscape c =
     [0x5C, 0x75, hexDigit (unat c div 4096), hexDigit (unat c div 256 mod 16),
      hexDigit (unat c div 16 mod 16), hexDigit (unat c mod 16)]"

definition isLeadingSurrogate :: "16 word \<Rightarrow> bool" where
  "isLeadingSurrogate c \<longleftrightarrow> 0xD800 \<le> c \<and> c \<le> 0xDBFF"

definition isTrailingSurrogate :: "16 word \<Rightarrow> bool" where
  "isTrailingSurrogate c \<longleftrightarrow> 0xDC00 \<le> c \<and> c \<le> 0xDFFF"

definition quoteUnit :: "16 word \<Rightarrow> jsstring" where
  "quoteUnit c =
     (if c = 0x08 then [0x5C, 0x62]
      else if c = 0x09 then [0x5C, 0x74]
      else if c = 0x0A then [0x5C, 0x6E]
      else if c = 0x0C then [0x5C, 0x66]
      else if c = 0x0D then [0x5C, 0x72]
      else if c = 0x22 then [0x5C, 0x22]
      else if c = 0x5C then [0x5C, 0x5C]
      else if c < 0x20 \<or> isLeadingSurrogate c \<or> isTrailingSurrogate c then UnicodeEscape c
      else [c])"

fun quoteUnits :: "jsstring \<Rightarrow> jsstring" where
  "quoteUnits [] = []"
| "quoteUnits [c] = quoteUnit c"
| "quoteUnits (c # d # cs) =
     (if isLeadingSurrogate c \<and> isTrailingSurrogate d then c # d # quoteUnits cs
      else quoteUnit c @ quoteUnits (d # cs))"

definition QuoteJSONString :: "jsstring \<Rightarrow> jsstring" where
  "QuoteJSONString s = [0x22] @ quoteUnits s @ [0x22]"

fun joinComma :: "jsstring list \<Rightarrow> jsstring" where
  "joinComma [] = []"
| "joinComma [x] = x"
| "joinComma (x # y # ys) = x @ [0x2C] @ joinComma (y # ys)"

fun JSON_stringify :: "json \<Rightarrow> jsstring" where
  "JSON_stringify (JString s) = QuoteJSONString s"
| "JSON_stringify (JObject ps) =
     [0x7B] @ joinComma (map (\<lambda>(k, v). QuoteJSONString k @ [0x3A] @ JSON_stringify v) ps)
       @ [0x7D]"

text \<open>
  Reading a quoted string back: \<open>unquoteUnits\<close> undoes the escapes of \<open>quoteUnits\<close>.
  It serves to show that the JSON text of a string determines the string.
\<close>

definition hexValue :: "16 word \<Rightarrow> nat" where
  "hexValue c = (if unat c < 58 then unat c - 48 else unat c - 87)"

definition unescape :: "16 word \<Rightarrow> 16 word" where
  "unescape e =
     (if e = 0x62 then 0x08 else if e = 0x74 then 0x09 else if e = 0x6E then 0x0A
      else if e = 0x66 then 0x0C else if e = 0x72 then 0x0D else e)"

fun unquoteUnits :: "jsstring \<Rightarrow> jsstring" where
  "unquoteUnits [] = []"
| "unquoteUnits [x] = [x]"
| "unquoteUnits (x # e # r) =
     (if x \<noteq> 0x5C then x # unquoteUnits (e # r)
      else if e \<noteq> 0x75 then unescape e # unquoteUnits r
      else (case r of
              a # b # c # d # r' \<Rightarrow>
                of_nat (4096 * hexValue a + 256 * hexValue b + 16 * hexValue c + hexValue d)
                  # unquoteUnits r'
            | _ \<Rightarrow> []))"

subsection \<open>The collaborators of the controller\<close>

text \<open>
  \<open>SessionManager\<close>, \<open>Session\<close> and \<open>Client\<close> are imported by the controller, which
  is verified here for whatever they do. Their objects (sessions, clients, sockets, the
  parsed options, the configured lifetime) are opaque values of type \<open>'v\<close>; their state
  is a world of type \<open>'w\<close> that each call reads and may change.
  \<open>SessionManager.get\<close> yields a session or \<open>undefined\<close>. The interface of the
  specification gives a failure to one call only: \<open>Session.reconnect\<close> returns or throws
  a value of type \<open>'e\<close>, and leaves a world either way; the other calls return.
  \<open>Session_id\<close> and \<open>Client_id\<close> read the \<open>id\<close> property of an object.
\<close>

record ('v, 'w, 'e) collaborators =
  SessionManager_get :: "jsstring \<Rightarrow> 'w \<Rightarrow> 'v option"
  SessionManager_new :: "'v \<Rightarrow> 'v \<Rightarrow> 'w \<Rightarrow> 'v \<times> 'w"
  Session_id :: "'v \<Rightarrow> 'w \<Rightarrow> jsstring"
  Session_join :: "'v \<Rightarrow> 'v \<Rightarrow> 'w \<Rightarrow> 'w"
  Session_reconnect :: "'v \<Rightarrow> jsstring \<Rightarrow> 'v \<Rightarrow> 'w \<Rightarrow> ('e + unit) \<times> 'w"
  new_Client :: "'w \<Rightarrow> 'v \<times> 'w"
  Client_bind :: "'v \<Rightarrow> 'v \<Rightarrow> 'w \<Rightarrow> 'w"
  Client_id :: "'v \<Rightarrow> 'w \<Rightarrow> jsstring"

text \<open>The calls a handler makes, recorded in the order it makes them.\<close>

datatype 'v call =
    Call_SessionManager_get jsstring
  | Call_SessionManager_new 'v 'v
  | Call_ctx_ws
  | Call_new_Client
  | Call_Client_bind 'v 'v
  | Call_Session_join 'v 'v
  | Call_Session_reconnect 'v jsstring 'v
  | Call_log_info jsstring

text \<open>
  The Koa context of one request, as far as the handlers use it: the two path parameters,
  \<open>ctx.ws\<close> (present on an upgrade request only: the function that completes the upgrade
  and yields the socket), the parsed request body, the configured session lifetime, and
  what the handlers assign: \<open>ctx.response.status\<close>, headers set with \<open>ctx.set\<close> and
  \<open>ctx.body\<close>.
\<close>

record ('v, 'w) Context =
  params_sessionId :: jsstring
  params_clientId :: jsstring
  ws :: "('w \<Rightarrow> 'v \<times> 'w) option"
  request_body :: 'v
  options_sessionLifetime :: 'v
  response_status :: nat
  response_headers :: "(jsstring \<times> jsstring) list"
  ctx_body :: "jsstring option"

text \<open>The state a handler runs in: the request's context, the world, the calls so far.\<close>

record ('v, 'w) server =
  ctx :: "('v, 'w) Context"
  world :: 'w
  calls :: "'v call list"

definition called :: "'v call \<Rightarrow> ('v, 'w) server \<Rightarrow> ('v, 'w) server" where
  "called c st = st\<lparr>calls := calls st @ [c]\<rparr>"

definition set_response_status :: "nat \<Rightarrow> ('v, 'w) server \<Rightarrow> ('v, 'w) server" where
  "set_response_status n st = st\<lparr>ctx := (ctx st)\<lparr>response_status := n\<rparr>\<rparr>"

definition ctx_set :: "jsstring \<Rightarrow> jsstring \<Rightarrow> ('v, 'w) server \<Rightarrow> ('v, 'w) server" where
  "ctx_set field val st =
     st\<lparr>ctx := (ctx st)\<lparr>response_headers := response_headers (ctx st) @ [(field, val)]\<rparr>\<rparr>"

definition set_ctx_body :: "jsstring \<Rightarrow> ('v, 'w) server \<Rightarrow> ('v, 'w) server" where
  "set_ctx_body b st = st\<lparr>ctx := (ctx st)\<lparr>ctx_body := Some b\<rparr>\<rparr>"

subsection \<open>The three routes\<close>

text \<open>
  A handler is an async function: it ends fulfilled (\<open>Inr ()\<close>) or rejected with the
  value a call threw (\<open>Inl e\<close>), in the state it reached.

  \<^verbatim>\<open>
  router.all("/session/:sessionId", async (ctx) =>
  {
      const sessionId = ctx.params.sessionId;
      const session = SessionManager.get(sessionId);
      if (!session) { ctx.response.status = 404; return; }
      if (ctx.ws)
      {
          const ws = await ctx.ws();
          const client = new Client();
          client.bind(ws);
          session.join(client);
          log.info(`New client ${client.id} join to ${sessionId}`);
      }
      else { ctx.response.status = 400; return; }
  });
  \<close>
\<close>

definition route_session ::
  "('v, 'w, 'e) collaborators \<Rightarrow> ('v, 'w) server \<Rightarrow> ('e + unit) \<times> ('v, 'w) server" where
  "route_session env st0 =
     (let sessionId = params_sessionId (ctx st0);
          st1 = called (Call_SessionManager_get sessionId) st0
      in case SessionManager_get env sessionId (world st1) of
           None \<Rightarrow> (Inr (), set_response_status 404 st1)
         | Some session \<Rightarrow>
             (case ws (ctx st1) of
                Some upgrade \<Rightarrow>
                  (let (sock, w2) = upgrade (world st1);
                       st2 = called Call_ctx_ws (st1\<lparr>world := w2\<rparr>);
                       (client, w3) = new_Client env (world st2);
                       st3 = called Call_new_Client (st2\<lparr>world := w3\<rparr>);
                       st4 = called (Call_Client_bind client sock)
                               (st3\<lparr>world := Client_bind env client sock (world st3)\<rparr>);
                       st5 = called (Call_Session_join session client)
                               (st4\<lparr>world := Session_join env session client (world st4)\<rparr>);
                       st6 = called (Call_log_info
                               (js ''New client '' @ Client_id env client (world st5)
                                  @ js '' join to '' @ sessionId)) st5
                   in (Inr (), st6))
              | None \<Rightarrow> (Inr (), set_response_status 400 st1)))"

text \<open>
  \<^verbatim>\<open>
  router.all("/session/:sessionId/:clientId", async (ctx) =>
  {
      const sessionId = ctx.params.sessionId;
      const session = SessionManager.get(sessionId);
      if (!session) { ctx.response.status = 404; return; }
      if (ctx.ws)
      {
          const ws = await ctx.ws();
          session.reconnect(ctx.params.clientId, ws);
          log.info(`Client ${ctx.params.clientId} reconnect to ${sessionId}`);
      }
      else { ctx.response.status = 400; return; }
  });
  \<close>
  There is no \<open>try\<close> around \<open>session.reconnect\<close>: what it throws rejects the handler,
  and the statements after it do not run.
\<close>

definition route_session_client ::
  "('v, 'w, 'e) collaborators \<Rightarrow> ('v, 'w) server \<Rightarrow> ('e + unit) \<times> ('v, 'w) server" where
  "route_session_client env st0 =
     (let sessionId = params_sessionId (ctx st0);
          st1 = called (Call_SessionManager_get sessionId) st0
      in case SessionManager_get env sessionId (world st1) of
           None \<Rightarrow> (Inr (), set_response_status 404 st1)
         | Some session \<Rightarrow>
             (case ws (ctx st1) of
                Some upgrade \<Rightarrow>
                  (let (sock, w2) = upgrade (world st1);
                       st2 = called Call_ctx_ws (st1\<lparr>world := w2\<rparr>);
                       st3 = called (Call_Session_reconnect session (params_clientId (ctx st2)) sock)
                               st2
                   in case Session_reconnect env session (params_clientId (ctx st3)) sock
                             (world st3) of
                        (Inl e, w4) \<Rightarrow> (Inl e, st3\<lparr>world := w4\<rparr>)
                      | (Inr u, w4) \<Rightarrow>
                          (Inr (), called (Call_log_info
                             (js ''Client '' @ params_clientId (ctx st3)
                                @ js '' reconnect to '' @ sessionId)) (st3\<lparr>world := w4\<rparr>)))
              | None \<Rightarrow> (Inr (), set_response_status 400 st1)))"

text \<open>
  \<^verbatim>\<open>
  router.post("/session", jsonBody, async (ctx) =>
  {
      const options = ctx.request.body;
      const session = SessionManager.new(options, ctx.options.sessionLifetime);
      ctx.set("Content-Type", "application/json");
      ctx.body = JSON.stringify(<NewSessionResponse>{ sessionId: session.id });
  });
  \<close>
\<close>

definition route_post_session ::
  "('v, 'w, 'e) collaborators \<Rightarrow> ('v, 'w) server \<Rightarrow> ('e + unit) \<times> ('v, 'w) server" where
  "route_post_session env st0 =
     (let options = request_body (ctx st0);
          (session, w1) = SessionManager_new env options (options_sessionLifetime (ctx st0))
                            (world st0);
          st1 = called (Call_SessionManager_new options (options_sessionLifetime (ctx st0)))
                  (st0\<lparr>world := w1\<rparr>);
          st2 = ctx_set (js ''Content-Type'') (js ''application/json'') st1;
          st3 = set_ctx_body
                  (JSON_stringify (JObject [(js ''sessionId'',
                     JString (Session_id env session (world st2)))])) st2
      in (Inr (), st3))"

text \<open>The calls that reach the core: \<open>Session.join\<close> and \<open>Session.reconnect\<close>.\<close>

fun core_call :: "'v call \<Rightarrow> bool" where
  "core_call (Call_Session_join s c) = True"
| "core_call (Call_Session_reconnect s cid sock) = True"
| "core_call other = False"

text \<open>A code unit that \<open>QuoteJSONString\<close> copies as it is.\<close>

definition plainUnit :: "16 word \<Rightarrow> bool" where
  "plainUnit c \<longleftrightarrow>
     0x20 \<le> c \<and> c \<noteq> 0x22 \<and> c \<noteq> 0x5C \<and> \<not> isLeadingSurrogate c \<and> \<not> isTrailingSurrogate c"

subsection \<open>A concrete instance, for evaluating the handlers\<close>

text \<open>
  Objects are numbers handed out by a counter, which is the world. One session exists,
  with identity \<open>s1\<close>; it knows one client, \<open>c1\<close>.
\<close>

definition example_collaborators :: "(nat, nat, string) collaborators" where
  "example_collaborators =
     \<lparr>SessionManager_get = (\<lambda>sid w. if sid = js ''s1'' then Some 1 else None),
      SessionManager_new = (\<lambda>opts lifetime w. (w, Suc w)),
      Session_id = (\<lambda>s w. js ''s'' @ [hexDigit (s mod 16)]),
      Session_join = (\<lambda>s c w. w),
      Session_reconnect =
        (\<lambda>s cid sock w. if cid = js ''c1'' then (Inr (), w) else (Inl ''NotFound'', w)),
      new_Client = (\<lambda>w. (w, Suc w)),
      Client_bind = (\<lambda>c sock w. w),
      Client_id = (\<lambda>c w. js ''c'' @ [hexDigit (c mod 16)])\<rparr>"

definition example_request :: "jsstring \<Rightarrow> jsstring \<Rightarrow> bool \<Rightarrow> (nat, nat) server" where
  "example_request sid cid upgrade =
     \<lparr>ctx = \<lparr>params_sessionId = sid, params_clientId = cid,
              ws = (if upgrade then Some (\<lambda>w. (w, Suc w)) else None),
              request_body = 7, options_sessionLifetime = 60,
              response_status = 404, response_headers = [], ctx_body = None\<rparr>,
      world = 10, calls = []\<rparr>"

section \<open>The relay core: \<open>Client\<close>, \<open>Session\<close>, \<open>SessionManager\<close>\<close>

text \<open>
  The controller imports the three classes from \<open>./client\<close>, \<open>./session\<close> and
  \<open>./session-manager\<close>. Their definitions below follow the specification, sections 3
  and 4. Time is a clock counting ticks; a connection is an opaque handle of type \<open>'k\<close>,
  the session options an opaque value of type \<open>'o\<close>.
\<close>

text \<open>
  Modelled from the spec: the error taxonomy of section 7, of which the core signals
  NotFound, "lookup of a session or client identity that does not exist".
\<close>

datatype core_error = NotFound

subsection \<open>Client\<close>

text \<open>
  Modelled from the spec: the class \<open>Client\<close> of \<open>./client\<close>. A client has an identity,
  assigned when a session admits it and immutable from then on, at most one bound
  connection, and a reference to the session it belongs to.
\<close>

record 'k Client =
  client_identity :: "jsstring option"
  connection :: "'k option"
  owner :: "jsstring option"

text \<open>Modelled from the spec: \<open>new Client()\<close>, a client with no identity and no connection.\<close>

definition new_client :: "'k Client" where
  "new_client = \<lparr>client_identity = None, connection = None, owner = None\<rparr>"

text \<open>
  Modelled from the spec: \<open>Client.bind(connection)\<close>, "attaches a Connection as this
  Client's active transport; if one was already bound, it is closed first". The result is
  the client and the connections that were closed.
\<close>

definition client_bind :: "'k \<Rightarrow> 'k Client \<Rightarrow> 'k Client \<times> 'k list" where
  "client_bind conn c =
     (c\<lparr>connection := Some conn\<rparr>, case connection c of None \<Rightarrow> [] | Some old \<Rightarrow> [old])"

subsection \<open>Session\<close>

text \<open>
  Modelled from the spec: the class \<open>Session\<close> of \<open>./session\<close>. "identity (immutable,
  unique within the manager); creation timestamp, configured lifetime (TTL); mapping from
  client identity to Client (keys unique; \<dots> treat as FIFO for determinism)". The
  mapping is the list of its entries in join order; \<open>closed\<close> lists the connections the
  session's clients have closed.
\<close>

record ('k, 'o) Session =
  session_identity :: jsstring
  session_options :: 'o
  created :: nat
  lifetime :: nat
  clients :: "(jsstring \<times> 'k Client) list"
  closed :: "'k list"

text \<open>Modelled from the spec: the constructor of \<open>Session\<close>, a session with no member.\<close>

definition new_Session :: "jsstring \<Rightarrow> 'o \<Rightarrow> nat \<Rightarrow> nat \<Rightarrow> ('k, 'o) Session" where
  "new_Session i opts t L =
     \<lparr>session_identity = i, session_options = opts, created = t, lifetime = L,
      clients = [], closed = []\<rparr>"

text \<open>
  Modelled from the spec: the member mapping's store of a client under a key that is
  present; the entry keeps its place.
\<close>

definition put_client ::
  "jsstring \<Rightarrow> 'k Client \<Rightarrow> (jsstring \<times> 'k Client) list \<Rightarrow> (jsstring \<times> 'k Client) list" where
  "put_client cid c ms = map (\<lambda>(k, v). if k = cid then (k, c) else (k, v)) ms"

text \<open>
  Modelled from the spec: the generator of identities, "an opaque, unguessable string
  token \<dots> generated on first join", from "a cryptographically strong random source".
  The random source of a call is the sequence of the tokens it yields, draw after draw;
  nothing is assumed of these tokens.
\<close>

type_synonym token_source = "nat \<Rightarrow> jsstring"

text \<open>
  Modelled from the spec: the choice of "a fresh identity unique within this Session".
  Tokens are drawn, from draw \<open>n\<close> on, until one is not among the identities in use; a
  collision is "retried internally rather than surfaced", as section 4.1 has it for the
  identities of sessions. A source that yields tokens in use for ever keeps the call
  drawing: it does not return (\<open>None\<close>).
\<close>

partial_function (option) fresh_identity ::
  "token_source \<Rightarrow> nat \<Rightarrow> jsstring list \<Rightarrow> jsstring option" where
  "fresh_identity source n used =
     (if source n \<in> set used then fresh_identity source (Suc n) used else Some (source n))"

text \<open>
  Modelled from the spec: \<open>Session.join(client)\<close>, "assigns the client a fresh identity
  unique within this Session, registers it in the member mapping". The call returns the
  identity it issued and leaves the session with the client registered under it, at the
  end of the mapping.
\<close>

definition session_join ::
  "token_source \<Rightarrow> 'k Client \<Rightarrow> ('k, 'o) Session \<Rightarrow> (jsstring \<times> ('k, 'o) Session) option" where
  "session_join source c s =
     (case fresh_identity source 0 (map fst (clients s)) of
        None \<Rightarrow> None
      | Some t \<Rightarrow>
          Some (t, s\<lparr>clients := clients s @
                       [(t, c\<lparr>client_identity := Some t,
                               owner := Some (session_identity s)\<rparr>)]\<rparr>))"

text \<open>
  Modelled from the spec: \<open>Session.reconnect(clientId, connection)\<close>, "looks up clientId
  in the member mapping; if absent, signals a NotFound condition; if present, rebinds the
  existing Client's Connection to the new one (closing any stale prior Connection first)
  without changing its identity". The result is what the call signals and the session as
  the call leaves it.
\<close>

definition session_reconnect ::
  "jsstring \<Rightarrow> 'k \<Rightarrow> ('k, 'o) Session \<Rightarrow> (core_error + unit) \<times> ('k, 'o) Session" where
  "session_reconnect cid conn s =
     (case map_of (clients s) cid of
        None \<Rightarrow> (Inl NotFound, s)
      | Some c \<Rightarrow>
          (let (c', cl) = client_bind conn c
           in (Inr (), s\<lparr>clients := put_client cid c' (clients s), closed := closed s @ cl\<rparr>)))"

text \<open>
  Modelled from the spec: the transport-closed notification of a member, which "clears
  the bound Connection \<dots> but retains its identity and Session membership".
\<close>

definition connection_lost :: "jsstring \<Rightarrow> ('k, 'o) Session \<Rightarrow> ('k, 'o) Session" where
  "connection_lost cid s =
     (case map_of (clients s) cid of
        None \<Rightarrow> s
      | Some c \<Rightarrow> s\<lparr>clients := put_client cid (c\<lparr>connection := None\<rparr>) (clients s)\<rparr>)"

text \<open>
  Modelled from the spec: what can happen to a session. \<open>Join c source\<close> is a call of
  \<open>join\<close> with the client \<open>c\<close>, during which the generator draws from \<open>source\<close>;
  \<open>Reconnect\<close> is a call of \<open>reconnect\<close>, whatever it signals; \<open>ConnectionLost\<close> is the
  transport-closed notification of a member's client.
\<close>

datatype 'k session_event =
    Join "'k Client" token_source
  | Reconnect jsstring 'k
  | ConnectionLost jsstring

text \<open>
  Modelled from the spec: the steps of a session. \<open>session_step s ev ids s'\<close>: the event
  \<open>ev\<close> takes the session from \<open>s\<close> to \<open>s'\<close> and issues the identities \<open>ids\<close> (one
  for a \<open>join\<close> that returns, none otherwise).
\<close>

inductive session_step ::
  "('k, 'o) Session \<Rightarrow> 'k session_event \<Rightarrow> jsstring list \<Rightarrow> ('k, 'o) Session \<Rightarrow> bool" where
  join: "session_join source c s = Some (t, s') \<Longrightarrow> session_step s (Join c source) [t] s'"
| reconnect: "session_step s (Reconnect cid conn) [] (snd (session_reconnect cid conn s))"
| lost: "session_step s (ConnectionLost cid) [] (connection_lost cid s)"

text \<open>
  Modelled from the spec: a history of a session, its events in the order they happen,
  with the identities it issues, in the order of issue.
\<close>

inductive session_run ::
  "('k, 'o) Session \<Rightarrow> 'k session_event list \<Rightarrow> jsstring list \<Rightarrow> ('k, 'o) Session \<Rightarrow> bool" where
  start: "session_run s [] [] s"
| next_event: "session_run s evs ids s' \<Longrightarrow> session_step s' ev new s'' \<Longrightarrow>
                 session_run s (evs @ [ev]) (ids @ new) s''"

text \<open>The connection is bound to a member of the session.\<close>

definition bound_in :: "'k \<Rightarrow> ('k, 'o) Session \<Rightarrow> bool" where
  "bound_in conn s = list_ex (\<lambda>(k, c). connection c = Some conn) (clients s)"

text \<open>
  Modelled from the spec: the steps of a session as functions, for running a history.
  \<open>apply_event\<close> is what an event issues and the state after it, \<open>replay\<close> the same for
  a history; \<open>None\<close> when a \<open>join\<close> does not return.
\<close>

fun apply_event ::
  "'k session_event \<Rightarrow> ('k, 'o) Session \<Rightarrow> (jsstring list \<times> ('k, 'o) Session) option" where
  "apply_event (Join c source) s =
     (case session_join source c s of None \<Rightarrow> None | Some (t, s') \<Rightarrow> Some ([t], s'))"
| "apply_event (Reconnect cid conn) s = Some ([], snd (session_reconnect cid conn s))"
| "apply_event (ConnectionLost cid) s = Some ([], connection_lost cid s)"

fun replay ::
  "'k session_event list \<Rightarrow> ('k, 'o) Session \<Rightarrow> (jsstring list \<times> ('k, 'o) Session) option" where
  "replay [] s = Some ([], s)"
| "replay (ev # evs) s =
     (case apply_event ev s of
        None \<Rightarrow> None
      | Some (new, s') \<Rightarrow>
          (case replay evs s' of None \<Rightarrow> None | Some (ids, s'') \<Rightarrow> Some (new @ ids, s'')))"

subsection \<open>SessionManager\<close>

text \<open>
  Modelled from the spec: the registry of \<open>./session-manager\<close>, "process-wide registry
  mapping session identity to Session". \<open>now\<close> is the clock; \<open>issued_sessions\<close> are the
  identities handed out so far ("a Session identity, once issued, is never reused");
  \<open>released\<close> lists the connections closed when their session expired.
\<close>

record ('k, 'o) Manager =
  now :: nat
  registry :: "(jsstring \<times> ('k, 'o) Session) list"
  issued_sessions :: "jsstring list"
  released :: "'k list"

text \<open>Modelled from the spec: the registry at process start, with the clock at \<open>t0\<close>.\<close>

definition new_Manager :: "nat \<Rightarrow> ('k, 'o) Manager" where
  "new_Manager t0 = \<lparr>now = t0, registry = [], issued_sessions = [], released = []\<rparr>"

text \<open>
  Modelled from the spec: \<open>SessionManager.get(sessionId)\<close>, "lookup by exact identity
  match; absent result for unknown or already-destroyed identities".
\<close>

definition manager_get :: "jsstring \<Rightarrow> ('k, 'o) Manager \<Rightarrow> ('k, 'o) Session option" where
  "manager_get i m = map_of (registry m) i"

text \<open>
  Modelled from the spec: \<open>remove(sessionId)\<close>, "removal is idempotent (removing an
  already-removed id is a no-op, never an error)".
\<close>

definition manager_remove :: "jsstring \<Rightarrow> ('k, 'o) Manager \<Rightarrow> ('k, 'o) Manager" where
  "manager_remove i m = m\<lparr>registry := filter (\<lambda>(k, s). k \<noteq> i) (registry m)\<rparr>"

text \<open>
  Modelled from the spec: the expiry timer of a session, which "fires at creation-time +
  TTL": at time \<open>t\<close> the timer of \<open>s\<close> has fired when \<open>created s + lifetime s \<le> t\<close>.
\<close>

definition expired :: "nat \<Rightarrow> ('k, 'o) Session \<Rightarrow> bool" where
  "expired t s \<longleftrightarrow> created s + lifetime s \<le> t"

text \<open>Modelled from the spec: the connections bound to the members of a session.\<close>

definition member_connections :: "('k, 'o) Session \<Rightarrow> 'k list" where
  "member_connections s = List.map_filter (\<lambda>(k, c). connection c) (clients s)"

text \<open>
  Modelled from the spec: what the timers that are due do, "on fire, the Session forcibly
  closes every member's Connection, detaches all Clients, and calls
  SessionManager.remove(identity). This is unconditional".
\<close>

definition expire_due :: "('k, 'o) Manager \<Rightarrow> ('k, 'o) Manager" where
  "expire_due m =
     m\<lparr>registry := filter (\<lambda>(k, s). \<not> expired (now m) s) (registry m),
       released := released m @
         concat (map (\<lambda>(k, s). member_connections s)
                   (filter (\<lambda>(k, s). expired (now m) s) (registry m)))\<rparr>"

text \<open>
  Modelled from the spec: \<open>SessionManager.new(options, lifetime)\<close>, "allocates a fresh
  unique session identity, constructs a Session configured with the given options and
  TTL, registers it, starts its expiry timer, and returns it". The identity \<open>i\<close> is the
  token the generator produced; that it is fresh is the condition of the step \<open>new\<close> of
  \<open>manager_step\<close> below. A timer of lifetime 0 is due at once.
\<close>

definition manager_new ::
  "'o \<Rightarrow> nat \<Rightarrow> jsstring \<Rightarrow> ('k, 'o) Manager \<Rightarrow> ('k, 'o) Session \<times> ('k, 'o) Manager" where
  "manager_new opts L i m =
     (let s = new_Session i opts (now m) L
      in (s, expire_due (m\<lparr>registry := registry m @ [(i, s)],
                            issued_sessions := issued_sessions m @ [i]\<rparr>)))"

text \<open>Modelled from the spec: one tick of the clock, and the timers that are due then.\<close>

definition tick :: "('k, 'o) Manager \<Rightarrow> ('k, 'o) Manager" where
  "tick m = expire_due (m\<lparr>now := Suc (now m)\<rparr>)"

text \<open>Modelled from the spec: the registry after a step of one of its sessions.\<close>

definition put_session :: "jsstring \<Rightarrow> ('k, 'o) Session \<Rightarrow> ('k, 'o) Manager \<Rightarrow> ('k, 'o) Manager" where
  "put_session i s m =
     m\<lparr>registry := map (\<lambda>(k, v). if k = i then (k, s) else (k, v)) (registry m)\<rparr>"

text \<open>
  Modelled from the spec: what can happen to the registry. \<open>New opts L i\<close> is a call of
  \<open>new\<close> that issues the identity \<open>i\<close>; \<open>At i ev\<close> is an event of the registered session
  \<open>i\<close> (membership activity); \<open>Remove i\<close> is a session terminating itself before its
  lifetime is over (its grace period has elapsed); \<open>Tick\<close> is the clock.
\<close>

datatype ('k, 'o) manager_event =
    New 'o nat jsstring
  | At jsstring "'k session_event"
  | Remove jsstring
  | Tick

text \<open>
  Modelled from the spec: the steps of the registry. An identity that \<open>new\<close> issues has
  not been issued before; an event of a session happens to a registered session.
\<close>

inductive manager_step ::
  "('k, 'o) Manager \<Rightarrow> ('k, 'o) manager_event \<Rightarrow> ('k, 'o) Manager \<Rightarrow> bool" where
  new: "i \<notin> set (issued_sessions m) \<Longrightarrow>
          manager_step m (New opts L i) (snd (manager_new opts L i m))"
| at: "manager_get i m = Some s \<Longrightarrow> session_step s ev ids s' \<Longrightarrow>
         manager_step m (At i ev) (put_session i s' m)"
| remove: "manager_step m (Remove i) (manager_remove i m)"
| tick: "manager_step m Tick (tick m)"

text \<open>
  Modelled from the spec: a history of the registry, its events in the order they happen.
\<close>

inductive manager_run ::
  "('k, 'o) Manager \<Rightarrow> ('k, 'o) manager_event list \<Rightarrow> ('k, 'o) Manager \<Rightarrow> bool" where
  start: "manager_run m [] m"
| next_event: "manager_run m evs m' \<Longrightarrow> manager_step m' ev m'' \<Longrightarrow>
                 manager_run m (evs @ [ev]) m''"

text \<open>
  Modelled from the spec: the steps of the registry as functions, for running a history.
  \<open>manager_apply\<close> is the state after an event, \<open>manager_possible\<close> tells whether every
  event of a history meets its conditions, \<open>manager_replay\<close> is the state after a history.
\<close>

fun manager_apply :: "('k, 'o) manager_event \<Rightarrow> ('k, 'o) Manager \<Rightarrow> ('k, 'o) Manager" where
  "manager_apply (New opts L i) m = snd (manager_new opts L i m)"
| "manager_apply (At i ev) m =
     (case manager_get i m of
        None \<Rightarrow> m
      | Some s \<Rightarrow>
          (case apply_event ev s of None \<Rightarrow> m | Some (ids, s') \<Rightarrow> put_session i s' m))"
| "manager_apply (Remove i) m = manager_remove i m"
| "manager_apply Tick m = tick m"

fun manager_possible_event :: "('k, 'o) Manager \<Rightarrow> ('k, 'o) manager_event \<Rightarrow> bool" where
  "manager_possible_event m (New opts L i) = (i \<notin> set (issued_sessions m))"
| "manager_possible_event m (At i ev) =
     (case manager_get i m of None \<Rightarrow> False | Some s \<Rightarrow> apply_event ev s \<noteq> None)"
| "manager_possible_event m ev = True"

fun manager_possible :: "('k, 'o) Manager \<Rightarrow> ('k, 'o) manager_event list \<Rightarrow> bool" where
  "manager_possible m [] = True"
| "manager_possible m (ev # evs) =
     (manager_possible_event m ev \<and> manager_possible (manager_apply ev m) evs)"

fun manager_replay :: "('k, 'o) manager_event list \<Rightarrow> ('k, 'o) Manager \<Rightarrow> ('k, 'o) Manager" where
  "manager_replay [] m = m"
| "manager_replay (ev # evs) m = manager_replay evs (manager_apply ev m)"

text \<open>
  Two invariants of the registry: no registered session has reached the end of its
  lifetime and every registered identity has been issued; the sessions registered under
  the identity \<open>i\<close> were created at \<open>c\<close> with lifetime \<open>L\<close>.
\<close>

definition registry_live :: "('k, 'o) Manager \<Rightarrow> bool" where
  "registry_live m \<longleftrightarrow>
     list_all (\<lambda>(k, s). now m < created s + lifetime s) (registry m) \<and>
     set (map fst (registry m)) \<subseteq> set (issued_sessions m)"

definition created_as :: "jsstring \<Rightarrow> nat \<Rightarrow> nat \<Rightarrow> ('k, 'o) Manager \<Rightarrow> bool" where
  "created_as i c L m \<longleftrightarrow>
     i \<in> set (issued_sessions m) \<and>
     list_all (\<lambda>(k, s). k = i \<longrightarrow> created s = c \<and> lifetime s = L) (registry m)"

subsection \<open>A concrete history, for evaluating the core\<close>

text \<open>
  A random source that yields \<open>c1\<close> at its first draw and \<open>c2\<close> from then on. Two
  clients join a session with their sockets 1 and 2 bound; the generator draws from this
  source both times, so the first draw of the second call collides. The second client
  then loses its connection and reconnects with socket 3.
\<close>

definition example_source :: token_source where
  "example_source n = (if n = 0 then js ''c1'' else js ''c2'')"

definition example_session :: "(nat, unit) Session" where
  "example_session = new_Session (js ''s1'') () 0 60"

definition example_history :: "nat session_event list" where
  "example_history =
     [Join (fst (client_bind 1 new_client)) example_source,
      Join (fst (client_bind 2 new_client)) example_source,
      ConnectionLost (js ''c2''),
      Reconnect (js ''c2'') 3]"

definition example_final :: "(nat, unit) Session" where
  "example_final =
     \<lparr>session_identity = js ''s1'', session_options = (), created = 0, lifetime = 60,
      clients =
        [(js ''c1'', \<lparr>client_identity = Some (js ''c1''), connection = Some 1,
                       owner = Some (js ''s1'')\<rparr>),
         (js ''c2'', \<lparr>client_identity = Some (js ''c2''), connection = Some 3,
                       owner = Some (js ''s1'')\<rparr>)],
      closed = []\<rparr>"

text \<open>
  A session of lifetime 2 is created at time 5, after one tick of a registry started at
  time 4; a client joins it, and the clock ticks.
\<close>

definition example_before :: "(nat, unit) manager_event list" where
  "example_before = [Tick]"

definition example_after :: "(nat, unit) manager_event list" where
  "example_after =
     [At (js ''s1'') (Join (fst (client_bind 1 new_client)) example_source), Tick, Tick]"

section \<open>Properties of the request builder\<close>

lemma rx_blank_tail: "rx_match [Star p, Eol] b s = list_all p s"
  by (induction s arbitrary: b) auto

lemma rx_no_later_start: "rx_search (Bol # ts) False s = False"
  by (induction s) auto

lemma RegExp_test_blank: "RegExp_test [Bol, Star p, Eol] s = list_all p s"
  by (cases s) (auto simp: RegExp_test_def rx_blank_tail rx_no_later_start)

text \<open>The switch of \<open>simpleParam\<close> yields what the declaration declares.\<close>

lemma validateByPass_eq: "validateByPass = (\<lambda>key value. Inr value)"
  by (simp add: fun_eq_iff validateByPass_def)

lemma simpleParam_case_declared: "simpleParam_case v = declared_info v"
  by (cases v rule: simpleParam_case.cases) (simp_all add: validateByPass_eq)

lemma put_property_fresh: "key \<notin> set (map fst ps) \<Longrightarrow> put_property key v ps = ps @ [(key, v)]"
  by (induction ps) auto

text \<open>
  The loop over a declaration whose keys are new to \<open>params\<close>: every key but
  \<open>__proto__\<close> becomes an own property, in order; the key \<open>__proto__\<close> becomes the
  prototype.
\<close>

lemma simpleParam_loop_own:
  "distinct (map fst info) \<Longrightarrow> set (map fst info) \<inter> set (map fst (own params)) = {} \<Longrightarrow>
     own (simpleParam_loop info params) =
       own params @ map (\<lambda>(k, v). (k, declared_info v))
                      (filter (\<lambda>(k, v). k \<noteq> js ''__proto__'') info)"
proof (induction info arbitrary: params)
  case Nil
  show ?case by simp
next
  case (Cons kv info)
  obtain key v where kv: "kv = (key, v)" by (cases kv)
  show ?case
  proof (cases "key = js ''__proto__''")
    case True
    with Cons.prems kv
    have "own (simpleParam_loop info (assign key (simpleParam_case v) params)) =
            own (assign key (simpleParam_case v) params)
              @ map (\<lambda>(k, v). (k, declared_info v))
                  (filter (\<lambda>(k, v). k \<noteq> js ''__proto__'') info)"
      by (intro Cons.IH) (auto simp: assign_def)
    with True kv show ?thesis by (simp add: assign_def)
  next
    case False
    from Cons.prems kv have fresh: "key \<notin> set (map fst (own params))"
      by auto
    with Cons.prems kv False
    have "own (simpleParam_loop info (assign key (simpleParam_case v) params)) =
            own (assign key (simpleParam_case v) params)
              @ map (\<lambda>(k, v). (k, declared_info v))
                  (filter (\<lambda>(k, v). k \<noteq> js ''__proto__'') info)"
      by (intro Cons.IH) (auto simp: assign_def put_property_fresh)
    with False kv fresh show ?thesis
      by (simp add: assign_def put_property_fresh simpleParam_case_declared)
  qed
qed

lemma simpleParam_loop_proto:
  "distinct (map fst info) \<Longrightarrow>
     proto (simpleParam_loop info params) =
       (case map_of info (js ''__proto__'') of
          None \<Rightarrow> proto params
        | Some d \<Rightarrow> Some (declared_info d))"
proof (induction info arbitrary: params)
  case Nil
  show ?case by simp
next
  case (Cons kv info)
  obtain key v where kv: "kv = (key, v)" by (cases kv)
  from Cons.prems kv have rest: "distinct (map fst info)" and new: "key \<notin> set (map fst info)"
    by simp_all
  show ?case
  proof (cases "key = js ''__proto__''")
    case True
    with new have "map_of info (js ''__proto__'') = None"
      by (simp add: map_of_eq_None_iff)
    with True kv Cons.IH [OF rest] show ?thesis
      by (simp add: assign_def simpleParam_case_declared)
  next
    case False
    with kv Cons.IH [OF rest] show ?thesis
      by (simp add: assign_def split: option.splits)
  qed
qed

lemma simpleParam_schema:
  assumes "distinct (map fst data)"
  shows "own (simpleParam data) =
           map (\<lambda>(k, v). (k, declared_info v)) (filter (\<lambda>(k, v). k \<noteq> js ''__proto__'') data)"
    and "proto (simpleParam data) = map_option declared_info (map_of data (js ''__proto__''))"
  using simpleParam_loop_own [OF assms, of empty_object]
    simpleParam_loop_proto [OF assms, of empty_object]
  by (simp_all add: simpleParam_def empty_object_def split: option.splits)

text \<open>
  Claim C9. \<open>body\<close> on a builder whose method is GET, HEAD, CONNECT, DELETE or OPTIONS
  throws an \<open>APIError\<close> with code \<open>ClientErrorCode.Error\<close>, which is \<open>-1\<close>, and the
  receiver is as it was. On a builder whose method is POST, PUT or PATCH it does not
  throw, the receiver is as it was, and it returns a new builder with the receiver's
  method, url, path and query declarations and no redirect option. The body schema of
  the new builder has, as own properties and in the declared order, every declared key
  other than \<open>__proto__\<close> with what the declaration declares for it (type, validator,
  optional flag). A declared key \<open>__proto__\<close> is not a property of the schema: what is
  declared for it has become the prototype of the schema, so for such a declaration the
  new builder does not carry the declared body schema.
\<close>

theorem body_schema_by_method:
  "(method this \<in> {GET, HEAD, CONNECT, DELETE, OPTIONS} \<longrightarrow>
      body this data =
        (this, Inl \<lparr>code = ClientErrorCode_value Error,
                    message = js ''HTTP Method '' @ methodString (method this)
                                @ js '' should not have body.''\<rparr>)) \<and>
   ClientErrorCode_value Error = -1 \<and>
   (method this \<in> {POST, PUT, PATCH} \<longrightarrow>
      body this data =
        (this, Inr \<lparr>method = method this, url = url this, pathInfo = pathInfo this,
                    queryInfo = queryInfo this, dataInfo = Some (simpleParam data),
                    redirectOption = None\<rparr>) \<and>
      (distinct (map fst data) \<longrightarrow>
         own (simpleParam data) =
           map (\<lambda>(k, v). (k, declared_info v))
             (filter (\<lambda>(k, v). k \<noteq> js ''__proto__'') data) \<and>
         proto (simpleParam data) = map_option declared_info (map_of data (js ''__proto__''))))"
  by (auto simp: body_def new_APIError_def new_ApiBuilder_def simpleParam_schema)

theorem body_schema_by_method_witness:
  "body (api GET (js ''/session'') :: unit ApiBuilder) [(js ''name'', Name T_string)] =
     (api GET (js ''/session''),
      Inl \<lparr>code = -1, message = js ''HTTP Method GET should not have body.''\<rparr>) \<and>
   body (api POST (js ''/session'') :: unit ApiBuilder)
        [(js ''name'', Name T_string), (js ''__proto__'', Name T_number)] =
     (api POST (js ''/session''),
      Inr \<lparr>method = POST, url = js ''/session'', pathInfo = empty_object,
           queryInfo = empty_object,
           dataInfo = Some
             \<lparr>own = [(js ''name'',
                       \<lparr>type = T_string, validator = (\<lambda>key value. Inr value),
                          optional = False\<rparr>)],
              proto = Some \<lparr>type = T_number, validator = (\<lambda>key value. Inr value),
                             optional = False\<rparr>\<rparr>,
           redirectOption = None\<rparr>) \<and>
   map_of (own (simpleParam [(js ''name'', Name T_string), (js ''__proto__'', Name T_number)
                              :: jsstring \<times> unit SimpleParam]))
     (js ''__proto__'') = None"
  using body_schema_by_method
          [of "api GET (js ''/session'') :: unit ApiBuilder" "[(js ''name'', Name T_string)]"]
        body_schema_by_method
          [of "api POST (js ''/session'') :: unit ApiBuilder"
              "[(js ''name'', Name T_string), (js ''__proto__'', Name T_number)]"]
  by (auto simp: new_ApiBuilder_def js_def ParamsDeclare.equality)

text \<open>
  Claim C10. For every key and every input string, \<open>validateNonEmpty\<close> throws if and only
  if every code unit of the input is matched by \<open>\s\<close> (the empty string included); what
  it throws then is an \<open>APIError\<close> with code \<open>ClientErrorCode.InvalidParameter\<close>, which
  is \<open>-2\<close>; on every other input it returns the input itself.
\<close>

theorem validateNonEmpty_throws_iff_blank:
  "((\<exists>e. validateNonEmpty key text = Inl e) \<longleftrightarrow> list_all class_s text) \<and>
   (list_all class_s text \<longrightarrow>
      validateNonEmpty key text =
        Inl \<lparr>code = ClientErrorCode_value InvalidParameter,
             message = js [CHR 0x27] @ key @ js [CHR 0x27] @ js '' cannot be empty''\<rparr>) \<and>
   (\<not> list_all class_s text \<longrightarrow> validateNonEmpty key text = Inr text) \<and>
   ClientErrorCode_value InvalidParameter = -2"
  by (simp add: validateNonEmpty_def RegExp_test_blank new_APIError_def)

theorem validateNonEmpty_throws_iff_blank_witness:
  "list_all class_s (js [CHR 0x20, CHR 0x09, CHR 0x0A]) \<and>
   validateNonEmpty (js ''name'') (js [CHR 0x20, CHR 0x09, CHR 0x0A]) =
     Inl \<lparr>code = -2,
          message = js [CHR 0x27] @ js ''name'' @ js [CHR 0x27] @ js '' cannot be empty''\<rparr> \<and>
   list_all class_s [] \<and> (\<exists>e. validateNonEmpty (js ''name'') [] = Inl e) \<and>
   \<not> list_all class_s (js '' a '') \<and>
   validateNonEmpty (js ''name'') (js '' a '') = Inr (js '' a '')"
  using validateNonEmpty_throws_iff_blank [of "js ''name''" "js [CHR 0x20, CHR 0x09, CHR 0x0A]"]
    validateNonEmpty_throws_iff_blank [of "js ''name''" "[]"]
    validateNonEmpty_throws_iff_blank [of "js ''name''" "js '' a ''"]
  by (simp add: js_def class_s_def isWhiteSpace_def isLineTerminator_def)

section \<open>Properties of the controller\<close>

lemma quoteUnit_plain: "plainUnit c \<Longrightarrow> quoteUnit c = [c]"
  by (auto simp: plainUnit_def quoteUnit_def)

lemma quoteUnits_plain: "list_all plainUnit s \<Longrightarrow> quoteUnits s = s"
  by (induction s rule: quoteUnits.induct) (auto simp: quoteUnit_plain plainUnit_def)

lemma plain_sessionId: "list_all plainUnit (js ''sessionId'')"
  by (simp add: js_def plainUnit_def isLeadingSurrogate_def isTrailingSurrogate_def)

lemma stringify_sessionId:
  "JSON_stringify (JObject [(js ''sessionId'', JString s)]) =
     js ''{'' @ [0x22] @ js ''sessionId'' @ [0x22] @ js '':'' @ QuoteJSONString s @ js ''}''"
  by (simp add: QuoteJSONString_def quoteUnits_plain [OF plain_sessionId]) (simp add: js_def)

text \<open>\<open>unquoteUnits\<close> is a left inverse of \<open>quoteUnits\<close>, so quoting is injective.\<close>

lemma unat_small: "k < 65536 \<Longrightarrow> unat (of_nat k :: 16 word) = k"
  by (simp add: unat_of_nat)

lemma hexValue_hexDigit: "n < 16 \<Longrightarrow> hexValue (hexDigit n) = n"
proof -
  assume n: "n < 16"
  show ?thesis
  proof (cases "n < 10")
    case True
    then have "unat (of_nat (48 + n) :: 16 word) = 48 + n" by (intro unat_small) simp
    with True show ?thesis by (simp add: hexValue_def hexDigit_def del: of_nat_add)
  next
    case False
    with n have "unat (of_nat (87 + n) :: 16 word) = 87 + n" by (intro unat_small) simp
    with False show ?thesis by (simp add: hexValue_def hexDigit_def del: of_nat_add)
  qed
qed

lemma hex_split:
  "4096 * (k div 4096) + 256 * (k div 256 mod 16) + 16 * (k div 16 mod 16) + k mod 16 = (k::nat)"
proof -
  have a: "k mod 4096 = 256 * (k div 256 mod 16) + k mod 256"
    using mod_mult2_eq [of k 256 16] by simp
  have b: "k mod 256 = 16 * (k div 16 mod 16) + k mod 16"
    using mod_mult2_eq [of k 16 16] by simp
  have "4096 * (k div 4096) + k mod 4096 = k"
    by simp
  with a b show ?thesis by linarith
qed

lemma unat_div_4096: "unat (c :: 16 word) div 4096 < 16"
proof -
  have "unat c < 2 ^ 16" using unsigned_less [of c] by simp
  then show ?thesis by simp
qed

lemma unhex_word:
  "(of_nat (4096 * hexValue (hexDigit (unat c div 4096))
            + 256 * hexValue (hexDigit (unat c div 256 mod 16))
            + 16 * hexValue (hexDigit (unat c div 16 mod 16))
            + hexValue (hexDigit (unat c mod 16))) :: 16 word) = c"
proof -
  have d3: "hexValue (hexDigit (unat c div 4096)) = unat c div 4096"
    by (rule hexValue_hexDigit) (rule unat_div_4096)
  have d2: "hexValue (hexDigit (unat c div 256 mod 16)) = unat c div 256 mod 16"
    by (rule hexValue_hexDigit) simp
  have d1: "hexValue (hexDigit (unat c div 16 mod 16)) = unat c div 16 mod 16"
    by (rule hexValue_hexDigit) simp
  have d0: "hexValue (hexDigit (unat c mod 16)) = unat c mod 16"
    by (rule hexValue_hexDigit) simp
  have "(of_nat (unat c) :: 16 word) = c" by simp
  then show ?thesis
    unfolding d3 d2 d1 d0 hex_split .
qed


lemma unquote_plain_Cons: "x \<noteq> 0x5C \<Longrightarrow> unquoteUnits (x # r) = x # unquoteUnits r"
  by (cases r) auto

lemma unquote_escape:
  "e \<noteq> 0x75 \<Longrightarrow> unquoteUnits (0x5C # e # r) = unescape e # unquoteUnits r"
  by simp

lemma unquote_u:
  "unquoteUnits (0x5C # 0x75 # a # b # c # d # r) =
     of_nat (4096 * hexValue a + 256 * hexValue b + 16 * hexValue c + hexValue d)
       # unquoteUnits r"
  by simp

lemma unquote_UnicodeEscape: "unquoteUnits (UnicodeEscape c @ r) = c # unquoteUnits r"
  unfolding UnicodeEscape_def append.simps unquote_u unhex_word ..

lemma unquote_quoteUnit: "unquoteUnits (quoteUnit c @ r) = c # unquoteUnits r"
proof -
  consider "c = 0x08" | "c = 0x09" | "c = 0x0A" | "c = 0x0C" | "c = 0x0D" | "c = 0x22"
    | "c = 0x5C"
    | "c \<notin> {0x08, 0x09, 0x0A, 0x0C, 0x0D, 0x22, 0x5C}"
        "c < 0x20 \<or> isLeadingSurrogate c \<or> isTrailingSurrogate c"
    | "c \<notin> {0x08, 0x09, 0x0A, 0x0C, 0x0D, 0x22, 0x5C}"
        "\<not> (c < 0x20 \<or> isLeadingSurrogate c \<or> isTrailingSurrogate c)"
    by blast
  then show ?thesis
  proof cases
    case 8
    then have "quoteUnit c = UnicodeEscape c" by (simp add: quoteUnit_def)
    then show ?thesis by (simp only: unquote_UnicodeEscape)
  next
    case 9
    then have "quoteUnit c = [c]" "c \<noteq> 0x5C" by (simp_all add: quoteUnit_def)
    then show ?thesis by (simp add: unquote_plain_Cons del: unquoteUnits.simps)
  qed (simp_all add: quoteUnit_def unescape_def)
qed

lemma surrogate_not_backslash:
  "isLeadingSurrogate c \<Longrightarrow> c \<noteq> 0x5C" "isTrailingSurrogate c \<Longrightarrow> c \<noteq> 0x5C"
  by (auto simp: isLeadingSurrogate_def isTrailingSurrogate_def)

lemma unquote_quoteUnits: "unquoteUnits (quoteUnits s @ r) = s @ unquoteUnits r"
proof (induction s rule: quoteUnits.induct)
  case 1
  show ?case by simp
next
  case (2 c)
  show ?case by (simp add: unquote_quoteUnit del: unquoteUnits.simps)
next
  case (3 c d cs)
  show ?case
  proof (cases "isLeadingSurrogate c \<and> isTrailingSurrogate d")
    case True
    then have "quoteUnits (c # d # cs) = c # d # quoteUnits cs"
      by (simp only: quoteUnits.simps(3) if_True simp_thms)
    with 3(1) [OF True] True show ?thesis
      by (simp add: unquote_plain_Cons surrogate_not_backslash
            del: unquoteUnits.simps quoteUnits.simps)
  next
    case False
    then have "quoteUnits (c # d # cs) = quoteUnit c @ quoteUnits (d # cs)"
      by (simp only: quoteUnits.simps(3) if_False simp_thms)
    with 3(2) [OF False] show ?thesis
      by (simp add: unquote_quoteUnit del: unquoteUnits.simps quoteUnits.simps)
  qed
qed

lemma quoteUnits_inj: "quoteUnits s @ r = quoteUnits t @ r \<Longrightarrow> s = t"
proof -
  assume "quoteUnits s @ r = quoteUnits t @ r"
  then have "unquoteUnits (quoteUnits s @ r) = unquoteUnits (quoteUnits t @ r)"
    by (rule arg_cong)
  then show "s = t" by (simp only: unquote_quoteUnits same_append_eq append_same_eq)
qed

lemma QuoteJSONString_inj: "QuoteJSONString s @ r = QuoteJSONString t @ r \<Longrightarrow> s = t"
  by (simp add: QuoteJSONString_def) (metis quoteUnits_inj)

lemma stringify_sessionId_inj:
  "JSON_stringify (JObject [(js ''sessionId'', JString s)])
     = JSON_stringify (JObject [(js ''sessionId'', JString t)]) \<Longrightarrow> s = t"
  by (simp add: stringify_sessionId del: JSON_stringify.simps)
     (rule QuoteJSONString_inj [of s "[]" t], simp)

lemmas example_simps = example_collaborators_def example_request_def js_def

text \<open>
  Claim C1. The handler of \<open>POST /session\<close> calls \<open>SessionManager.new\<close> once, with the
  parsed request body as options and the configured session lifetime, makes no other call
  to a collaborator, and sets the response body to the JSON text of an object whose one
  property \<open>sessionId\<close> is the \<open>id\<close> of the session that this call returned: the text
  \<open>{"sessionId":\<close>, the quoted identity, \<open>}\<close>. No other string has this JSON text.
\<close>

theorem post_session_new_and_body:
  "\<exists>session w st'.
     SessionManager_new env (request_body (ctx st)) (options_sessionLifetime (ctx st)) (world st)
       = (session, w) \<and>
     route_post_session env st = (Inr (), st') \<and>
     calls st' = calls st @
       [Call_SessionManager_new (request_body (ctx st)) (options_sessionLifetime (ctx st))] \<and>
     world st' = w \<and>
     ctx_body (ctx st') =
       Some (JSON_stringify (JObject [(js ''sessionId'', JString (Session_id env session w))])) \<and>
     JSON_stringify (JObject [(js ''sessionId'', JString (Session_id env session w))]) =
       js ''{'' @ [0x22] @ js ''sessionId'' @ [0x22] @ js '':''
         @ QuoteJSONString (Session_id env session w) @ js ''}'' \<and>
     (\<forall>t. ctx_body (ctx st') = Some (JSON_stringify (JObject [(js ''sessionId'', JString t)]))
          \<longrightarrow> t = Session_id env session w)"
proof -
  obtain session w where new:
    "SessionManager_new env (request_body (ctx st)) (options_sessionLifetime (ctx st)) (world st)
       = (session, w)"
    by (cases "SessionManager_new env (request_body (ctx st)) (options_sessionLifetime (ctx st))
                 (world st)")
  let ?text = "JSON_stringify (JObject [(js ''sessionId'', JString (Session_id env session w))])"
  let ?st' = "st\<lparr>ctx := (ctx st)\<lparr>response_headers := response_headers (ctx st)
                       @ [(js ''Content-Type'', js ''application/json'')],
                     ctx_body := Some ?text\<rparr>,
                 world := w,
                 calls := calls st @ [Call_SessionManager_new (request_body (ctx st))
                                        (options_sessionLifetime (ctx st))]\<rparr>"
  have run: "route_post_session env st = (Inr (), ?st')"
    using new
    by (simp add: route_post_session_def called_def ctx_set_def set_ctx_body_def Let_def
          del: JSON_stringify.simps)
  have only: "t = Session_id env session w"
    if "ctx_body (ctx ?st') = Some (JSON_stringify (JObject [(js ''sessionId'', JString t)]))"
    for t
    using that stringify_sessionId_inj [of "Session_id env session w" t]
    by (simp del: JSON_stringify.simps)
  show ?thesis
    apply (rule exI [of _ session], rule exI [of _ w], rule exI [of _ ?st'])
    using new run only stringify_sessionId [of "Session_id env session w"]
    apply (simp del: JSON_stringify.simps)
    done
qed

theorem post_session_new_and_body_witness:
  "route_post_session example_collaborators (example_request [] [] False) =
     (Inr (),
      \<lparr>ctx = \<lparr>params_sessionId = [], params_clientId = [], ws = None, request_body = 7,
               options_sessionLifetime = 60, response_status = 404,
               response_headers = [(js ''Content-Type'', js ''application/json'')],
               ctx_body = Some (js ''{'' @ [0x22] @ js ''sessionId'' @ [0x22] @ js '':''
                                  @ [0x22] @ js ''sa'' @ [0x22] @ js ''}'')\<rparr>,
       world = 11, calls = [Call_SessionManager_new 7 60]\<rparr>) \<and>
   JSON_stringify (JObject [(js ''sessionId'', JString (js ''sa''))]) =
     js ''{'' @ [0x22] @ js ''sessionId'' @ [0x22] @ js '':'' @ [0x22] @ js ''sa'' @ [0x22]
       @ js ''}''"
  using post_session_new_and_body [of example_collaborators "example_request [] [] False"]
  by (auto simp: example_simps hexDigit_def QuoteJSONString_def quoteUnit_def
        isLeadingSurrogate_def isTrailingSurrogate_def route_post_session_def called_def
        ctx_set_def set_ctx_body_def)

text \<open>
  Claim C2. When \<open>SessionManager.get\<close> of the \<open>sessionId\<close> path parameter is absent,
  each of the two handlers ends with response status 404, having called
  \<open>SessionManager.get\<close> and nothing else: no call of \<open>Session.join\<close> or
  \<open>Session.reconnect\<close> is added, and the world of the collaborators is as it was.
\<close>

theorem absent_session_not_found:
  assumes "SessionManager_get env (params_sessionId (ctx st)) (world st) = None"
  shows "route_session env st =
           (Inr (), st\<lparr>ctx := (ctx st)\<lparr>response_status := 404\<rparr>,
                       calls := calls st @ [Call_SessionManager_get (params_sessionId (ctx st))]\<rparr>) \<and>
         route_session_client env st =
           (Inr (), st\<lparr>ctx := (ctx st)\<lparr>response_status := 404\<rparr>,
                       calls := calls st @ [Call_SessionManager_get (params_sessionId (ctx st))]\<rparr>) \<and>
         filter core_call (calls (snd (route_session env st))) = filter core_call (calls st) \<and>
         filter core_call (calls (snd (route_session_client env st)))
           = filter core_call (calls st)"
  using assms
  by (simp add: route_session_def route_session_client_def called_def set_response_status_def)

theorem absent_session_not_found_witness:
  "SessionManager_get example_collaborators (js ''zz'') 10 = None \<and>
   snd (route_session example_collaborators (example_request (js ''zz'') (js ''c1'') True)) =
     \<lparr>ctx = \<lparr>params_sessionId = js ''zz'', params_clientId = js ''c1'',
              ws = Some (\<lambda>w. (w, Suc w)), request_body = 7, options_sessionLifetime = 60,
              response_status = 404, response_headers = [], ctx_body = None\<rparr>,
      world = 10, calls = [Call_SessionManager_get (js ''zz'')]\<rparr> \<and>
   snd (route_session_client example_collaborators (example_request (js ''zz'') (js ''c1'') True)) =
     \<lparr>ctx = \<lparr>params_sessionId = js ''zz'', params_clientId = js ''c1'',
              ws = Some (\<lambda>w. (w, Suc w)), request_body = 7, options_sessionLifetime = 60,
              response_status = 404, response_headers = [], ctx_body = None\<rparr>,
      world = 10, calls = [Call_SessionManager_get (js ''zz'')]\<rparr>"
  using absent_session_not_found
          [of example_collaborators "example_request (js ''zz'') (js ''c1'') True"]
  by (simp add: example_simps)

text \<open>
  Claim C3. When the session exists and the request is not an upgrade (\<open>ctx.ws\<close> is
  absent), each of the two handlers ends with response status 400, having called
  \<open>SessionManager.get\<close> and nothing else: no call of \<open>Session.join\<close> or
  \<open>Session.reconnect\<close> is added, and the world of the collaborators is as it was.
\<close>

theorem no_upgrade_bad_request:
  assumes "SessionManager_get env (params_sessionId (ctx st)) (world st) = Some session"
    and "ws (ctx st) = None"
  shows "route_session env st =
           (Inr (), st\<lparr>ctx := (ctx st)\<lparr>response_status := 400\<rparr>,
                       calls := calls st @ [Call_SessionManager_get (params_sessionId (ctx st))]\<rparr>) \<and>
         route_session_client env st =
           (Inr (), st\<lparr>ctx := (ctx st)\<lparr>response_status := 400\<rparr>,
                       calls := calls st @ [Call_SessionManager_get (params_sessionId (ctx st))]\<rparr>) \<and>
         filter core_call (calls (snd (route_session env st))) = filter core_call (calls st) \<and>
         filter core_call (calls (snd (route_session_client env st)))
           = filter core_call (calls st)"
  using assms
  by (simp add: route_session_def route_session_client_def called_def set_response_status_def)

theorem no_upgrade_bad_request_witness:
  "SessionManager_get example_collaborators (js ''s1'') 10 = Some 1 \<and>
   ws (ctx (example_request (js ''s1'') (js ''c1'') False)) = None \<and>
   snd (route_session example_collaborators (example_request (js ''s1'') (js ''c1'') False)) =
     \<lparr>ctx = \<lparr>params_sessionId = js ''s1'', params_clientId = js ''c1'',
              ws = None, request_body = 7, options_sessionLifetime = 60,
              response_status = 400, response_headers = [], ctx_body = None\<rparr>,
      world = 10, calls = [Call_SessionManager_get (js ''s1'')]\<rparr> \<and>
   snd (route_session_client example_collaborators (example_request (js ''s1'') (js ''c1'') False)) =
     \<lparr>ctx = \<lparr>params_sessionId = js ''s1'', params_clientId = js ''c1'',
              ws = None, request_body = 7, options_sessionLifetime = 60,
              response_status = 400, response_headers = [], ctx_body = None\<rparr>,
      world = 10, calls = [Call_SessionManager_get (js ''s1'')]\<rparr>"
  using no_upgrade_bad_request
          [of example_collaborators "example_request (js ''s1'') (js ''c1'') False" 1]
  by (simp add: example_simps)

text \<open>
  Claim C4. On an upgrade request to \<open>/session/{sessionId}\<close> whose session exists, the
  handler completes the upgrade, constructs a client with \<open>new Client()\<close>, calls
  \<open>bind\<close> on that client with the upgraded socket, and then calls \<open>Session.join\<close> on the
  session with that same client; these calls are made in this order, and the world they
  leave is the one \<open>join\<close> returns on the world \<open>bind\<close> returned.
\<close>

theorem upgrade_binds_then_joins:
  assumes "SessionManager_get env (params_sessionId (ctx st)) (world st) = Some session"
    and "ws (ctx st) = Some upgrade"
    and "upgrade (world st) = (sock, w1)"
    and "new_Client env w1 = (client, w2)"
  shows "route_session env st =
           (Inr (),
            st\<lparr>world := Session_join env session client (Client_bind env client sock w2),
                calls := calls st @
                  [Call_SessionManager_get (params_sessionId (ctx st)), Call_ctx_ws,
                   Call_new_Client, Call_Client_bind client sock,
                   Call_Session_join session client,
                   Call_log_info (js ''New client ''
                     @ Client_id env client
                         (Session_join env session client (Client_bind env client sock w2))
                     @ js '' join to '' @ params_sessionId (ctx st))]\<rparr>)"
  using assms
  by (simp add: route_session_def called_def Let_def)

theorem upgrade_binds_then_joins_witness:
  "SessionManager_get example_collaborators (js ''s1'') 10 = Some 1 \<and>
   calls (snd (route_session example_collaborators (example_request (js ''s1'') [] True))) =
     [Call_SessionManager_get (js ''s1''), Call_ctx_ws, Call_new_Client, Call_Client_bind 11 10,
      Call_Session_join 1 11, Call_log_info (js ''New client cb join to s1'')] \<and>
   world (snd (route_session example_collaborators (example_request (js ''s1'') [] True))) = 12"
  using upgrade_binds_then_joins
          [of example_collaborators "example_request (js ''s1'') [] True" 1
              "\<lambda>w. (w, Suc w)" 10 11 11 12]
  by (simp add: example_simps hexDigit_def)



section \<open>Properties of the relay core\<close>

subsection \<open>The generator\<close>

text \<open>A call that returns has drawn a token that is not in use.\<close>

lemma fresh_identity_fresh:
  assumes "fresh_identity source n used = Some t"
  shows "t \<notin> set used"
proof (rule fresh_identity.raw_induct [where P = "\<lambda>source n used t. t \<notin> set used", OF _ assms])
  fix draw source n used t
  assume later: "\<And>source n used t. draw source n used = Some t \<Longrightarrow> t \<notin> set used"
    and first: "(if source n \<in> set used then draw source (Suc n) used else Some (source n))
                  = Some t"
  show "t \<notin> set used"
  proof (cases "source n \<in> set used")
    case True
    with first have "draw source (Suc n) used = Some t" by simp
    then show ?thesis by (rule later)
  next
    case False
    with first show ?thesis by auto
  qed
qed

text \<open>A call returns as soon as the source yields a token that is not in use.\<close>

lemma fresh_identity_returns:
  "source (n + k) \<notin> set used \<Longrightarrow> \<exists>t. fresh_identity source n used = Some t"
proof (induction k arbitrary: n)
  case 0
  then show ?case by (subst fresh_identity.simps) simp
next
  case (Suc k)
  then have "\<exists>t. fresh_identity source (Suc n) used = Some t" by simp
  then show ?case by (subst fresh_identity.simps) simp
qed

subsection \<open>Histories of a session\<close>

lemma put_client_keys: "map fst (put_client cid c ms) = map fst ms"
  by (induction ms) (auto simp: put_client_def)

lemma session_join_keys:
  assumes "session_join source c s = Some (t, s')"
  shows "t \<notin> set (map fst (clients s))" and "map fst (clients s') = map fst (clients s) @ [t]"
    and "created s' = created s" and "lifetime s' = lifetime s"
proof -
  from assms have drawn: "fresh_identity source 0 (map fst (clients s)) = Some t"
    by (auto simp: session_join_def split: option.splits)
  with assms have s': "s' = s\<lparr>clients := clients s @
                       [(t, c\<lparr>client_identity := Some t,
                               owner := Some (session_identity s)\<rparr>)]\<rparr>"
    by (auto simp: session_join_def)
  from drawn show "t \<notin> set (map fst (clients s))"
    by (rule fresh_identity_fresh)
  from s' show "map fst (clients s') = map fst (clients s) @ [t]"
    and "created s' = created s" and "lifetime s' = lifetime s"
    by simp_all
qed

lemma session_join_returns:
  "source n \<notin> set (map fst (clients s)) \<Longrightarrow> \<exists>t s'. session_join source c s = Some (t, s')"
  using fresh_identity_returns [of source 0 n "map fst (clients s)"]
  by (auto simp: session_join_def)

lemma session_step_keys:
  "session_step s ev ids s' \<Longrightarrow> map fst (clients s') = map fst (clients s) @ ids"
  by (induction rule: session_step.induct)
     (auto simp: session_join_keys session_reconnect_def connection_lost_def put_client_keys
        client_bind_def split: option.splits)

lemma session_run_keys:
  "session_run s0 evs ids s \<Longrightarrow> map fst (clients s) = map fst (clients s0) @ ids"
  by (induction rule: session_run.induct) (auto simp: session_step_keys)

lemma session_step_distinct:
  assumes "session_step s ev ids s'" and "distinct (map fst (clients s))"
  shows "distinct (map fst (clients s'))"
proof -
  have keys: "map fst (clients s') = map fst (clients s) @ ids"
    using assms(1) by (rule session_step_keys)
  from assms(1) have "ids = [] \<or> (\<exists>t. ids = [t] \<and> t \<notin> set (map fst (clients s)))"
  proof (induction rule: session_step.induct)
    case (join source c s t s')
    then show ?case using session_join_keys(1) by blast
  qed simp_all
  with keys assms(2) show ?thesis by force
qed

lemma session_run_distinct:
  "session_run s0 evs ids s \<Longrightarrow> distinct (map fst (clients s0)) \<Longrightarrow>
     distinct (map fst (clients s))"
  by (induction rule: session_run.induct) (auto dest: session_step_distinct)

lemma session_step_times:
  "session_step s ev ids s' \<Longrightarrow> created s' = created s \<and> lifetime s' = lifetime s"
  by (induction rule: session_step.induct)
     (auto simp: session_join_keys session_reconnect_def connection_lost_def client_bind_def
        split: option.splits)

text \<open>The functions \<open>apply_event\<close> and \<open>replay\<close> compute the histories of \<open>session_run\<close>.\<close>

lemma session_step_apply: "apply_event ev s = Some (ids, s') \<Longrightarrow> session_step s ev ids s'"
  by (cases ev) (auto intro: session_step.intros split: option.splits)

lemma session_step_function: "session_step s ev ids s' \<Longrightarrow> apply_event ev s = Some (ids, s')"
  by (induction rule: session_step.induct) auto

lemma session_run_Cons:
  "session_run s1 evs ids s2 \<Longrightarrow> session_step s ev new s1 \<Longrightarrow>
     session_run s (ev # evs) (new @ ids) s2"
proof (induction rule: session_run.induct)
  case (start s1)
  have "session_run s ([] @ [ev]) ([] @ new) s1"
    using session_run.start start by (rule session_run.next_event)
  then show ?case by simp
next
  case (next_event s1 evs ids s' ev' new' s'')
  then have "session_run s ((ev # evs) @ [ev']) ((new @ ids) @ new') s''"
    by (blast intro: session_run.next_event)
  then show ?case by simp
qed

lemma replay_run: "replay evs s = Some (ids, s') \<Longrightarrow> session_run s evs ids s'"
proof (induction evs arbitrary: s ids)
  case Nil
  then show ?case by (simp add: session_run.start)
next
  case (Cons ev evs)
  from Cons.prems obtain new s1 rest where
    first: "apply_event ev s = Some (new, s1)" and
    later: "replay evs s1 = Some (rest, s')" and ids: "ids = new @ rest"
    by (auto split: option.splits)
  from later have "session_run s1 evs rest s'" by (rule Cons.IH)
  moreover from first have "session_step s ev new s1" by (rule session_step_apply)
  ultimately show ?case unfolding ids by (rule session_run_Cons)
qed

lemma replay_snoc:
  "replay (evs @ [ev]) s =
     (case replay evs s of
        None \<Rightarrow> None
      | Some (ids, s') \<Rightarrow>
          (case apply_event ev s' of None \<Rightarrow> None | Some (new, s'') \<Rightarrow> Some (ids @ new, s'')))"
  by (induction evs arbitrary: s) (auto split: option.splits)

lemma run_replay: "session_run s evs ids s' \<Longrightarrow> replay evs s = Some (ids, s')"
  by (induction rule: session_run.induct)
     (auto simp: replay_snoc dest: session_step_function)

subsection \<open>Histories of the registry\<close>

lemma registry_live_iff:
  "registry_live m \<longleftrightarrow>
     (\<forall>k s. (k, s) \<in> set (registry m) \<longrightarrow>
        now m < created s + lifetime s \<and> k \<in> set (issued_sessions m))"
  by (force simp: registry_live_def list_all_iff)

lemma created_as_iff:
  "created_as i c L m \<longleftrightarrow>
     i \<in> set (issued_sessions m) \<and>
     (\<forall>s. (i, s) \<in> set (registry m) \<longrightarrow> created s = c \<and> lifetime s = L)"
  by (force simp: created_as_def list_all_iff)

lemma in_put_session:
  "(k, v) \<in> set (registry (put_session i s' m)) \<Longrightarrow>
     (k = i \<and> v = s') \<or> (k \<noteq> i \<and> (k, v) \<in> set (registry m))"
  by (auto simp: put_session_def split: if_splits)

lemma in_expire_due:
  "(k, v) \<in> set (registry (expire_due m)) \<longleftrightarrow>
     (k, v) \<in> set (registry m) \<and> now m < created v + lifetime v"
  by (auto simp: expire_due_def expired_def)

lemma expire_due_fields:
  "now (expire_due m) = now m" "issued_sessions (expire_due m) = issued_sessions m"
  by (simp_all add: expire_due_def)

lemma put_session_fields:
  "now (put_session i s m) = now m" "issued_sessions (put_session i s m) = issued_sessions m"
  by (simp_all add: put_session_def)

text \<open>Every step of the registry keeps the two invariants.\<close>

lemma manager_step_live: "manager_step m ev m' \<Longrightarrow> registry_live m \<Longrightarrow> registry_live m'"
proof (induction rule: manager_step.induct)
  case (new i m opts L)
  then show ?case
    by (auto simp: registry_live_iff manager_new_def Let_def in_expire_due expire_due_fields)
next
  case (at i m s ev ids s')
  from at(1) have "(i, s) \<in> set (registry m)"
    by (simp add: manager_get_def map_of_SomeD)
  with at(3) have old: "now m < created s + lifetime s" "i \<in> set (issued_sessions m)"
    by (auto simp: registry_live_iff)
  from at(2) have same: "created s' = created s" "lifetime s' = lifetime s"
    by (simp_all add: session_step_times)
  show ?case
    unfolding registry_live_iff put_session_fields
  proof (intro allI impI)
    fix k v
    assume "(k, v) \<in> set (registry (put_session i s' m))"
    then consider "k = i" "v = s'" | "(k, v) \<in> set (registry m)"
      using in_put_session by blast
    then show "now m < created v + lifetime v \<and> k \<in> set (issued_sessions m)"
    proof cases
      case 1
      with old same show ?thesis by simp
    next
      case 2
      with at(3) show ?thesis by (auto simp: registry_live_iff)
    qed
  qed
next
  case (remove i m)
  then show ?case
    by (auto simp: registry_live_iff manager_remove_def)
next
  case (tick m)
  then show ?case
    by (auto simp: registry_live_iff tick_def in_expire_due expire_due_fields)
qed

lemma manager_run_live: "manager_run m evs m' \<Longrightarrow> registry_live m \<Longrightarrow> registry_live m'"
  by (induction rule: manager_run.induct) (auto dest: manager_step_live)

lemma manager_step_created_as:
  "manager_step m ev m' \<Longrightarrow> created_as i c L m \<Longrightarrow> created_as i c L m'"
proof (induction rule: manager_step.induct)
  case (new j m opts L')
  then show ?case
    by (auto simp: created_as_iff manager_new_def Let_def in_expire_due expire_due_fields)
next
  case (at j m s ev ids s')
  from at(1) have reg: "(j, s) \<in> set (registry m)"
    by (simp add: manager_get_def map_of_SomeD)
  from at(2) have same: "created s' = created s" "lifetime s' = lifetime s"
    by (simp_all add: session_step_times)
  have "created v = c \<and> lifetime v = L" if "(i, v) \<in> set (registry (put_session j s' m))" for v
  proof -
    from that consider "i = j" "v = s'" | "(i, v) \<in> set (registry m)"
      using in_put_session by blast
    then show ?thesis
    proof cases
      case 1
      with reg at(3) same show ?thesis by (auto simp: created_as_iff)
    next
      case 2
      with at(3) show ?thesis by (auto simp: created_as_iff)
    qed
  qed
  with at(3) show ?case
    by (simp add: created_as_iff put_session_fields)
next
  case (remove j m)
  then show ?case
    by (auto simp: created_as_iff manager_remove_def)
next
  case (tick m)
  then show ?case
    by (auto simp: created_as_iff tick_def in_expire_due expire_due_fields)
qed

lemma manager_run_created_as:
  "manager_run m evs m' \<Longrightarrow> created_as i c L m \<Longrightarrow> created_as i c L m'"
  by (induction rule: manager_run.induct) (auto dest: manager_step_created_as)

lemma new_Manager_live: "registry_live (new_Manager t0)"
  by (simp add: registry_live_def new_Manager_def)

text \<open>
  The functions \<open>manager_possible\<close> and \<open>manager_replay\<close> compute histories of
  \<open>manager_run\<close>.
\<close>

lemma manager_step_apply:
  "manager_possible_event m ev \<Longrightarrow> manager_step m ev (manager_apply ev m)"
proof (cases ev)
  case (At i e)
  assume "manager_possible_event m ev"
  with At obtain s ids s' where "manager_get i m = Some s" "apply_event e s = Some (ids, s')"
    by (auto split: option.splits)
  with At show ?thesis
    by (auto intro: manager_step.at session_step_apply)
qed (auto intro: manager_step.intros)

lemma manager_step_function:
  "manager_step m ev m' \<Longrightarrow> manager_possible_event m ev \<and> m' = manager_apply ev m"
  by (induction rule: manager_step.induct) (auto dest: session_step_function)

lemma manager_run_Cons:
  "manager_run m1 evs m2 \<Longrightarrow> manager_step m ev m1 \<Longrightarrow> manager_run m (ev # evs) m2"
proof (induction rule: manager_run.induct)
  case (start m1)
  have "manager_run m ([] @ [ev]) m1"
    using manager_run.start start by (rule manager_run.next_event)
  then show ?case by simp
next
  case (next_event m1 evs m' ev' m'')
  then have "manager_run m ((ev # evs) @ [ev']) m''"
    by (blast intro: manager_run.next_event)
  then show ?case by simp
qed

lemma manager_possible_run:
  "manager_possible m evs \<Longrightarrow> manager_run m evs (manager_replay evs m)"
proof (induction evs arbitrary: m)
  case Nil
  show ?case by (simp add: manager_run.start)
next
  case (Cons ev evs)
  then show ?case
    by (auto intro: manager_run_Cons manager_step_apply)
qed

lemma manager_possible_snoc:
  "manager_possible m (evs @ [ev]) \<longleftrightarrow>
     manager_possible m evs \<and> manager_possible_event (manager_replay evs m) ev"
  by (induction evs arbitrary: m) auto

lemma manager_replay_snoc:
  "manager_replay (evs @ [ev]) m = manager_apply ev (manager_replay evs m)"
  by (induction evs arbitrary: m) auto

lemma manager_run_possible:
  "manager_run m evs m' \<Longrightarrow> manager_possible m evs \<and> m' = manager_replay evs m"
  by (induction rule: manager_run.induct)
     (auto simp: manager_possible_snoc manager_replay_snoc dest: manager_step_function)

lemmas example_core_simps =
  example_session_def example_history_def example_before_def example_after_def
  example_source_def example_final_def
  new_Session_def new_client_def client_bind_def session_join_def session_reconnect_def
  connection_lost_def put_client_def js_def fresh_identity.simps

lemmas example_manager_simps =
  new_Manager_def manager_new_def tick_def expire_due_def expired_def put_session_def
  manager_get_def manager_remove_def member_connections_def List.map_filter_def Let_def

lemma example_replay: "replay example_history example_session = Some ([js ''c1'', js ''c2''], example_final)"
  by (simp add: example_core_simps)

subsection \<open>The claims about the core\<close>

text \<open>
  Claim C6. Let a session have any history since it was created, and let \<open>cid\<close> be an
  identity that no \<open>join\<close> of this history issued. Then \<open>reconnect\<close> with \<open>cid\<close> and any
  connection signals NotFound and leaves the session as it was: the member mapping is
  unchanged, and a connection that was bound to no member is bound to none afterwards.
\<close>

theorem reconnect_unknown_identity:
  assumes "session_run (new_Session i opts t0 L) evs ids s"
    and "cid \<notin> set ids"
  shows "session_reconnect cid conn s = (Inl NotFound, s) \<and>
         clients (snd (session_reconnect cid conn s)) = clients s \<and>
         (\<not> bound_in conn s \<longrightarrow> \<not> bound_in conn (snd (session_reconnect cid conn s)))"
proof -
  have "map fst (clients s) = ids"
    using session_run_keys [OF assms(1)] by (simp add: new_Session_def)
  with assms(2) have "cid \<notin> fst ` set (clients s)"
    by (metis set_map)
  then have "map_of (clients s) cid = None"
    by (simp add: map_of_eq_None_iff)
  then show ?thesis
    by (simp add: session_reconnect_def)
qed

theorem reconnect_unknown_identity_witness:
  "session_run example_session example_history [js ''c1'', js ''c2''] example_final \<and>
   js ''unknown-id'' \<notin> set [js ''c1'', js ''c2''] \<and>
   \<not> bound_in 9 example_final \<and>
   session_reconnect (js ''unknown-id'') 9 example_final = (Inl NotFound, example_final) \<and>
   \<not> bound_in 9 (snd (session_reconnect (js ''unknown-id'') 9 example_final))"
proof -
  have run: "session_run (new_Session (js ''s1'') () 0 60) example_history
               [js ''c1'', js ''c2''] example_final"
    using replay_run [OF example_replay] by (simp add: example_session_def)
  have unknown: "js ''unknown-id'' \<notin> set [js ''c1'', js ''c2'']"
    by (simp add: js_def)
  have unbound: "\<not> bound_in 9 example_final"
    by (simp add: bound_in_def example_final_def)
  from reconnect_unknown_identity [OF run unknown, of 9] run unknown unbound
  show ?thesis by (simp add: example_session_def)
qed

text \<open>
  Claim C7. In every history of a session since it was created (joins with any random
  sources, reconnects and lost connections in any order), the identities that its
  \<open>join\<close> calls issue are pairwise distinct, and the keys of the member mapping are
  pairwise distinct: they are the issued identities, in the order of issue. A further
  \<open>join\<close> that returns, whatever its random source, issues an identity that was not
  issued before; and it returns as soon as its source yields a token that was not issued
  before.
\<close>

theorem issued_identities_distinct:
  assumes "session_run (new_Session i opts t0 L) evs ids s"
  shows "distinct ids \<and> distinct (map fst (clients s)) \<and> map fst (clients s) = ids \<and>
         (\<forall>source c t s'. session_join source c s = Some (t, s') \<longrightarrow> t \<notin> set ids) \<and>
         (\<forall>source c. (\<exists>n. source n \<notin> set ids) \<longrightarrow>
            (\<exists>t s'. session_join source c s = Some (t, s')))"
proof -
  have keys: "map fst (clients s) = ids"
    using session_run_keys [OF assms] by (simp add: new_Session_def)
  have "distinct (map fst (clients s))"
    using session_run_distinct [OF assms] by (simp add: new_Session_def)
  moreover have "t \<notin> set ids" if "session_join source c s = Some (t, s')" for source c t s'
    using session_join_keys(1) [OF that] keys by simp
  moreover have "\<exists>t s'. session_join source c s = Some (t, s')"
    if "\<exists>n. source n \<notin> set ids" for source and c :: "'a Client"
    using that keys session_join_returns [of source _ s c] by auto
  ultimately show ?thesis
    using keys by auto
qed

theorem issued_identities_distinct_witness:
  "session_run example_session example_history [js ''c1'', js ''c2''] example_final \<and>
   example_source 0 = js ''c1'' \<and>
   distinct [js ''c1'', js ''c2''] \<and>
   map fst (clients example_final) = [js ''c1'', js ''c2''] \<and>
   (\<exists>s'. session_join (\<lambda>n. if n < 3 then js ''c2'' else js ''c3'')
            (fst (client_bind 4 new_client)) example_final = Some (js ''c3'', s'))"
proof -
  have run: "session_run (new_Session (js ''s1'') () 0 60) example_history
               [js ''c1'', js ''c2''] example_final"
    using replay_run [OF example_replay] by (simp add: example_session_def)
  have more: "\<exists>s'. session_join (\<lambda>n. if n < 3 then js ''c2'' else js ''c3'')
            (fst (client_bind 4 new_client)) example_final = Some (js ''c3'', s')"
    by (simp add: session_join_def example_final_def fresh_identity.simps js_def)
  from issued_identities_distinct [OF run] run more
  show ?thesis by (simp add: example_session_def example_source_def js_def)
qed

text \<open>
  Claim C8. Let the registry have any history \<open>evs\<close> since process start, and let
  \<open>new\<close> then create a session with lifetime \<open>L\<close> under the identity \<open>i\<close>, at the time
  \<open>now m\<close>. After every further history \<open>evs'\<close> (new sessions, joins, reconnects and
  lost connections in any session, early removals, ticks of the clock) that ends at a
  time \<open>now m + L\<close> or later, \<open>get\<close> of \<open>i\<close> is absent.
\<close>

theorem session_unreachable_after_lifetime:
  assumes "manager_run (new_Manager t0) evs m"
    and "i \<notin> set (issued_sessions m)"
    and "manager_run (snd (manager_new opts L i m)) evs' m'"
    and "now m + L \<le> now m'"
  shows "manager_get i m' = None"
proof (rule ccontr)
  assume "manager_get i m' \<noteq> None"
  then obtain s where s: "(i, s) \<in> set (registry m')"
    by (auto simp: manager_get_def dest: map_of_SomeD)
  have live: "registry_live m"
    using manager_run_live [OF assms(1) new_Manager_live] .
  have step: "manager_step m (New opts L i) (snd (manager_new opts L i m))"
    using assms(2) by (rule manager_step.new)
  have live1: "registry_live (snd (manager_new opts L i m))"
    using manager_step_live [OF step live] .
  have "\<forall>b. (i, b) \<notin> set (registry m)"
    using live assms(2) by (auto simp: registry_live_iff)
  then have "created_as i (now m) L (snd (manager_new opts L i m))"
    by (auto simp: created_as_iff manager_new_def Let_def in_expire_due expire_due_fields
          new_Session_def)
  then have "created_as i (now m) L m'"
    using manager_run_created_as [OF assms(3)] by simp
  with s have "created s = now m \<and> lifetime s = L"
    by (auto simp: created_as_iff)
  moreover have "now m' < created s + lifetime s"
    using manager_run_live [OF assms(3) live1] s by (auto simp: registry_live_iff)
  ultimately show False
    using assms(4) by simp
qed

theorem session_unreachable_after_lifetime_witness:
  "manager_run (new_Manager 4) example_before (manager_replay example_before (new_Manager 4)) \<and>
   js ''s1'' \<notin> set (issued_sessions (manager_replay example_before (new_Manager 4))) \<and>
   now (manager_replay example_before (new_Manager 4)) = 5 \<and>
   manager_get (js ''s1'')
     (manager_replay (take 2 example_after)
        (snd (manager_new () 2 (js ''s1'') (manager_replay example_before (new_Manager 4)))))
     \<noteq> None \<and>
   now (manager_replay example_after
          (snd (manager_new () 2 (js ''s1'') (manager_replay example_before (new_Manager 4)))))
     = 7 \<and>
   manager_get (js ''s1'')
     (manager_replay example_after
        (snd (manager_new () 2 (js ''s1'') (manager_replay example_before (new_Manager 4)))))
     = None"
proof -
  let ?m = "manager_replay example_before (new_Manager 4 :: (nat, unit) Manager)"
  let ?m1 = "snd (manager_new () 2 (js ''s1'') ?m)"
  have before: "manager_run (new_Manager 4) example_before ?m"
    by (rule manager_possible_run) (simp add: example_before_def)
  have fresh: "js ''s1'' \<notin> set (issued_sessions ?m)"
    by (simp add: example_core_simps example_manager_simps)
  have after: "manager_run ?m1 example_after (manager_replay example_after ?m1)"
    by (rule manager_possible_run) (simp add: example_core_simps example_manager_simps)
  have late: "now ?m + 2 \<le> now (manager_replay example_after ?m1)"
    by (simp add: example_core_simps example_manager_simps)
  have early: "manager_get (js ''s1'') (manager_replay (take 2 example_after) ?m1) \<noteq> None"
    by (simp add: example_core_simps example_manager_simps)
  have times: "now ?m = 5" "now (manager_replay example_after ?m1) = 7"
    by (simp_all add: example_core_simps example_manager_simps)
  from session_unreachable_after_lifetime [OF before fresh after late] before fresh early times
  show ?thesis by simp
qed

end
